theory Spec2Isabelle
  imports Main "HOL-Library.Monad_Syntax"
begin

unbundle bit_operations_syntax

section \<open>The document node model (docparser.h)\<close>

text \<open>
  \<open>DocNode::Kind\<close>: the closed enumeration of node kinds, in the order of the header
  (the enumerator 50 is not used there).
\<close>

datatype Kind =
    Kind_Root | Kind_Word | Kind_WhiteSpace | Kind_Para | Kind_AutoList | Kind_AutoListItem
  | Kind_Symbol | Kind_URL | Kind_StyleChange | Kind_SimpleSect | Kind_Title | Kind_SimpleList
  | Kind_SimpleListItem | Kind_Section | Kind_Verbatim | Kind_XRefItem | Kind_HtmlList
  | Kind_HtmlListItem | Kind_HtmlDescList | Kind_HtmlDescData | Kind_HtmlDescTitle
  | Kind_HtmlTable | Kind_HtmlRow | Kind_HtmlCell | Kind_HtmlCaption | Kind_LineBreak
  | Kind_HorRuler | Kind_Anchor | Kind_IndexEntry | Kind_Internal | Kind_HRef | Kind_Include
  | Kind_IncOperator | Kind_HtmlHeader | Kind_Image | Kind_DotFile | Kind_Link | Kind_Ref
  | Kind_Formula | Kind_SecRefItem | Kind_SecRefList | Kind_SimpleSectSep | Kind_LinkedWord
  | Kind_ParamSect | Kind_ParamList | Kind_InternalRef | Kind_Copy | Kind_Text | Kind_MscFile
  | Kind_HtmlBlockQuote | Kind_ParBlock | Kind_DiaFile

text \<open>
  \<open>DocStyleChange::Style\<close>. The header declares the enumerators without initialisers,
  so they are numbered consecutively from zero; \<open>Style_int\<close> is the conversion to
  \<open>int\<close> that the C++ applies when a style is used in \<open>styleMask |= sc->style()\<close>.
\<close>

datatype Style = Bold | Italic | Code | Center | Small | Subscript | Superscript
  | Preformatted | Span | Div

fun Style_int :: "Style \<Rightarrow> int" where
  "Style_int Bold = 0"
| "Style_int Italic = 1"
| "Style_int Code = 2"
| "Style_int Center = 3"
| "Style_int Small = 4"
| "Style_int Subscript = 5"
| "Style_int Superscript = 6"
| "Style_int Preformatted = 7"
| "Style_int Span = 8"
| "Style_int Div = 9"

text \<open>\<open>DocVerbatim::Type\<close> (its \<open>Code\<close> is written \<open>Verbatim_Code\<close> here).\<close>

datatype VerbatimType = Verbatim_Code | HtmlOnly | ManOnly | LatexOnly | RtfOnly | XmlOnly
  | Verbatim | Dot | Msc | DocbookOnly | PlantUML

text \<open>\<open>DocParamSect::Direction\<close>.\<close>

datatype Direction = In | Out | InOut | Unspecified

text \<open>
  Nodes live in a store and are named by their address; a \<open>DocNode *\<close> is
  \<open>Some\<close> address or \<open>None\<close> for the null pointer.
\<close>

type_synonym ptr = nat

text \<open>
  One constructor for each concrete node class of the header, with the fields that the
  modelled functions read. The selectors carry the names of the C++ accessors
  (\<open>vtype\<close> stands for \<open>DocVerbatim::type()\<close>; \<open>m_file\<close> and \<open>m_text\<close> are the
  members behind \<open>DocLinkedWord::file()\<close> and \<open>DocFormula::text()\<close>). \<open>DocParamList\<close> owns three lists
  and \<open>DocSimpleListItem\<close> one paragraph; they do not derive from \<open>CompAccept\<close>.
\<close>

datatype DocClass =
    DocWord (word: string)
  | DocLinkedWord (word: string) (ref: string) (m_file: string) (relPath: string)
      (anchor: string) (tooltip: string)
  | DocURL
  | DocLineBreak
  | DocHorRuler
  | DocAnchor
  | DocCite
  | DocStyleChange (style: Style) (enable: bool)
  | DocSymbol
  | DocWhiteSpace
  | DocVerbatim (vtype: VerbatimType) (isBlock: bool)
  | DocInclude
  | DocIncOperator
  | DocFormula (m_text: string)
  | DocIndexEntry
  | DocCopy
  | DocAutoList (isEnumList: bool) (depth: int)
  | DocAutoListItem
  | DocTitle
  | DocXRefItem
  | DocImage
  | DocDotFile
  | DocMscFile
  | DocDiaFile
  | DocLink
  | DocRef
  | DocInternalRef
  | DocHRef
  | DocHtmlHeader
  | DocHtmlDescTitle
  | DocHtmlDescList
  | DocSection
  | DocSecRefItem
  | DocSecRefList
  | DocInternal
  | DocParBlock
  | DocSimpleList
  | DocHtmlList
  | DocSimpleSect
  | DocSimpleSectSep
  | DocParamSect (hasInOutSpecifier: bool) (hasTypeSpecifier: bool)
  | DocPara
  | DocParamList (direction: Direction) (m_paragraphs: "ptr list") (parameters: "ptr list")
      (paramTypes: "ptr list")
  | DocSimpleListItem (m_paragraph: ptr)
  | DocHtmlListItem
  | DocHtmlDescData
  | DocHtmlCell
  | DocHtmlCaption
  | DocHtmlRow
  | DocHtmlTable
  | DocHtmlBlockQuote
  | DocText
  | DocRoot (indent: bool) (singleLine: bool)

text \<open>
  The virtual function \<open>kind()\<close> of each class. \<open>DocCite\<close> and \<open>DocInternalRef\<close>
  return \<open>Kind_Ref\<close> in the header, like \<open>DocRef\<close>.
\<close>

fun kind :: "DocClass \<Rightarrow> Kind" where
  "kind (DocWord _) = Kind_Word"
| "kind (DocLinkedWord _ _ _ _ _ _) = Kind_LinkedWord"
| "kind DocURL = Kind_URL"
| "kind DocLineBreak = Kind_LineBreak"
| "kind DocHorRuler = Kind_HorRuler"
| "kind DocAnchor = Kind_Anchor"
| "kind DocCite = Kind_Ref"
| "kind (DocStyleChange _ _) = Kind_StyleChange"
| "kind DocSymbol = Kind_Symbol"
| "kind DocWhiteSpace = Kind_WhiteSpace"
| "kind (DocVerbatim _ _) = Kind_Verbatim"
| "kind DocInclude = Kind_Include"
| "kind DocIncOperator = Kind_IncOperator"
| "kind (DocFormula _) = Kind_Formula"
| "kind DocIndexEntry = Kind_IndexEntry"
| "kind DocCopy = Kind_Copy"
| "kind (DocAutoList _ _) = Kind_AutoList"
| "kind DocAutoListItem = Kind_AutoListItem"
| "kind DocTitle = Kind_Title"
| "kind DocXRefItem = Kind_XRefItem"
| "kind DocImage = Kind_Image"
| "kind DocDotFile = Kind_DotFile"
| "kind DocMscFile = Kind_MscFile"
| "kind DocDiaFile = Kind_DiaFile"
| "kind DocLink = Kind_Link"
| "kind DocRef = Kind_Ref"
| "kind DocInternalRef = Kind_Ref"
| "kind DocHRef = Kind_HRef"
| "kind DocHtmlHeader = Kind_HtmlHeader"
| "kind DocHtmlDescTitle = Kind_HtmlDescTitle"
| "kind DocHtmlDescList = Kind_HtmlDescList"
| "kind DocSection = Kind_Section"
| "kind DocSecRefItem = Kind_SecRefItem"
| "kind DocSecRefList = Kind_SecRefList"
| "kind DocInternal = Kind_Internal"
| "kind DocParBlock = Kind_ParBlock"
| "kind DocSimpleList = Kind_SimpleList"
| "kind DocHtmlList = Kind_HtmlList"
| "kind DocSimpleSect = Kind_SimpleSect"
| "kind DocSimpleSectSep = Kind_SimpleSectSep"
| "kind (DocParamSect _ _) = Kind_ParamSect"
| "kind DocPara = Kind_Para"
| "kind (DocParamList _ _ _ _) = Kind_ParamList"
| "kind (DocSimpleListItem _) = Kind_SimpleListItem"
| "kind DocHtmlListItem = Kind_HtmlListItem"
| "kind DocHtmlDescData = Kind_HtmlDescData"
| "kind DocHtmlCell = Kind_HtmlCell"
| "kind DocHtmlCaption = Kind_HtmlCaption"
| "kind DocHtmlRow = Kind_HtmlRow"
| "kind DocHtmlTable = Kind_HtmlTable"
| "kind DocHtmlBlockQuote = Kind_HtmlBlockQuote"
| "kind DocText = Kind_Text"
| "kind (DocRoot _ _) = Kind_Root"

text \<open>
  \<open>DocFormula::isInline()\<close>:
  \<^verbatim>\<open>return m_text.length() > 0 ? m_text.at(0) != '\\' : true;\<close>
\<close>

definition backslash :: char where
  "backslash = CHR 0x5C"

definition isInline :: "DocClass \<Rightarrow> bool" where
  "isInline f = (if length (m_text f) > 0 then m_text f ! 0 \<noteq> backslash else True)"

section \<open>Classification of nodes that must be outside a paragraph (htmldocvisitor.cpp)\<close>

text \<open>
  \<open>mustBeOutsideParagraph(DocNode *n)\<close>: a switch on \<open>n->kind()\<close>; the three cases with
  a body cast \<open>n\<close> to the class of that kind and read its fields.
\<close>

definition mustBeOutsideParagraph :: "DocClass \<Rightarrow> bool" where
  "mustBeOutsideParagraph n =
     (case kind n of
        Kind_HtmlList \<Rightarrow> True
      | Kind_SimpleList \<Rightarrow> True
      | Kind_AutoList \<Rightarrow> True
      | Kind_SimpleSect \<Rightarrow> True
      | Kind_ParamSect \<Rightarrow> True
      | Kind_HtmlDescList \<Rightarrow> True
      | Kind_XRefItem \<Rightarrow> True
      | Kind_HtmlTable \<Rightarrow> True
      | Kind_Section \<Rightarrow> True
      | Kind_HtmlHeader \<Rightarrow> True
      | Kind_Internal \<Rightarrow> True
      | Kind_Include \<Rightarrow> True
      | Kind_Image \<Rightarrow> True
      | Kind_SecRefList \<Rightarrow> True
      | Kind_HorRuler \<Rightarrow> True
      | Kind_Copy \<Rightarrow> True
      | Kind_HtmlBlockQuote \<Rightarrow> True
      | Kind_ParBlock \<Rightarrow> True
      | Kind_Verbatim \<Rightarrow> vtype n \<noteq> HtmlOnly \<or> isBlock n
      | Kind_StyleChange \<Rightarrow> style n = Preformatted \<or> style n = Div \<or> style n = Center
      | Kind_Formula \<Rightarrow> \<not> isInline n
      | _ \<Rightarrow> False)"

text \<open>
  The table of the specification, written from its words: the kinds that always qualify
  (among them the three diagram file references), and the three conditional kinds.
\<close>

definition alwaysOutsideKinds_spec :: "Kind set" where
  "alwaysOutsideKinds_spec =
     {Kind_HtmlList, Kind_SimpleList, Kind_AutoList, Kind_SimpleSect, Kind_ParamSect,
      Kind_HtmlDescList, Kind_XRefItem, Kind_HtmlTable, Kind_Section, Kind_HtmlHeader,
      Kind_Internal, Kind_Include, Kind_Image, Kind_DotFile, Kind_MscFile, Kind_DiaFile,
      Kind_SecRefList, Kind_HorRuler, Kind_Copy, Kind_HtmlBlockQuote, Kind_ParBlock}"

definition conditionallyOutside_spec :: "DocClass \<Rightarrow> bool" where
  "conditionallyOutside_spec n =
     ((kind n = Kind_Verbatim \<and> \<not> (vtype n = HtmlOnly \<and> \<not> isBlock n)) \<or>
      (kind n = Kind_StyleChange \<and> style n \<in> {Preformatted, Div, Center}) \<or>
      (kind n = Kind_Formula \<and> \<not> isInline n))"

definition mustBeOutsideParagraph_spec :: "DocClass \<Rightarrow> bool" where
  "mustBeOutsideParagraph_spec n =
     (kind n \<in> alwaysOutsideKinds_spec \<or> conditionallyOutside_spec n)"

text \<open>The kinds named by the switch of the code: the table without the diagram files.\<close>

definition alwaysOutsideKinds :: "Kind set" where
  "alwaysOutsideKinds = alwaysOutsideKinds_spec - {Kind_DotFile, Kind_MscFile, Kind_DiaFile}"

text \<open>
  The single-dollar delimiter pattern, as \<open>HtmlDocVisitor::visit(DocFormula *)\<close> tests it
  before it strips the delimiters:
  \<^verbatim>\<open>! text.isEmpty() && text.at(0) == '$' && text.at(text.length() - 1) == '$'\<close>
\<close>

definition dollar :: char where
  "dollar = CHR 0x24"

definition wrappedInSingleDollar :: "string \<Rightarrow> bool" where
  "wrappedInSingleDollar t = (t \<noteq> [] \<and> t ! 0 = dollar \<and> t ! (length t - 1) = dollar)"


section \<open>The node store\<close>

text \<open>
  The part of a node that belongs to \<open>DocNode\<close> and \<open>CompAccept\<close>: the object of the
  concrete class, the parent back-reference \<open>m_parent\<close>, the flag behind
  \<open>isPreformatted()\<close>, and the child list \<open>CompAccept<T>::m_children\<close> (empty for a
  class that does not derive from \<open>CompAccept\<close>).
\<close>

record DocNode =
  obj :: DocClass
  m_parent :: "ptr option"
  m_insidePre :: bool
  m_children :: "ptr list"

text \<open>
  Every address holds a node: the tree never keeps a dangling pointer, and the null
  pointer is \<open>None\<close>.
\<close>

type_synonym heap = "ptr \<Rightarrow> DocNode"

definition kindOf :: "heap \<Rightarrow> ptr \<Rightarrow> Kind" where
  "kindOf h p = kind (obj (h p))"

subsection \<open>The list operations used by the visitor\<close>

text \<open>
  \<open>QList\<close> indexes with \<open>int\<close>. \<open>at\<close>, \<open>first\<close> and \<open>last\<close> assert that the
  element exists; the failed assertion is the value \<open>None\<close>. \<open>indexOf\<close> returns the
  first position of the element, or \<open>-1\<close>.
\<close>

definition QList_count :: "'a list \<Rightarrow> int" where
  "QList_count xs = int (length xs)"

definition QList_at :: "'a list \<Rightarrow> int \<Rightarrow> 'a option" where
  "QList_at xs i = (if 0 \<le> i \<and> i < QList_count xs then Some (xs ! nat i) else None)"

definition QList_first :: "'a list \<Rightarrow> 'a option" where
  "QList_first xs = (case xs of [] \<Rightarrow> None | x # _ \<Rightarrow> Some x)"

definition QList_last :: "'a list \<Rightarrow> 'a option" where
  "QList_last xs = (if xs = [] then None else Some (last xs))"

fun QList_indexOf :: "'a list \<Rightarrow> 'a \<Rightarrow> int" where
  "QList_indexOf [] x = -1"
| "QList_indexOf (y # ys) x =
     (if y = x then 0
      else (let i = QList_indexOf ys x in if i = -1 then -1 else i + 1))"

text \<open>\<open>children().at(i)->kind()\<close> and the node object at a position.\<close>

definition kindAt :: "heap \<Rightarrow> ptr list \<Rightarrow> int \<Rightarrow> Kind option" where
  "kindAt h cs i = map_option (kindOf h) (QList_at cs i)"

definition objAt :: "heap \<Rightarrow> ptr list \<Rightarrow> int \<Rightarrow> DocClass option" where
  "objAt h cs i = map_option (\<lambda>p. obj (h p)) (QList_at cs i)"

section \<open>The HTML visitor (htmldocvisitor.cpp)\<close>

text \<open>
  What is written to the stream \<open>m_t\<close>, one item for each insertion: literal text, and
  the calls of \<open>filter\<close>, \<open>startLink\<close> and \<open>endLink\<close>, which escape and write their
  arguments with the help of the translator and of the link resolver.
\<close>

datatype Out =
    Txt string
  | Filter string
  | StartLink string string string string string
  | EndLink

definition endl :: string where
  "endl = [CHR 0x0A]"

text \<open>The visitor state read and written by the functions below.\<close>

record HtmlDocVisitor =
  m_t :: "Out list"
  m_hide :: bool

definition emit :: "Out list \<Rightarrow> HtmlDocVisitor \<Rightarrow> HtmlDocVisitor" where
  "emit out v = v\<lparr>m_t := m_t v @ out\<rparr>"

subsection \<open>First and last child, separated paragraphs, paragraph context\<close>

text \<open>
  \<^verbatim>\<open>return parent->children().first() == node;\<close> and the same with \<open>last()\<close>.
\<close>

definition isFirstChildNode :: "heap \<Rightarrow> ptr \<Rightarrow> ptr \<Rightarrow> bool option" where
  "isFirstChildNode h parent node =
     map_option (\<lambda>f. f = node) (QList_first (m_children (h parent)))"

definition isLastChildNode :: "heap \<Rightarrow> ptr \<Rightarrow> ptr \<Rightarrow> bool option" where
  "isLastChildNode h parent node =
     map_option (\<lambda>l. l = node) (QList_last (m_children (h parent)))"

text \<open>
  \<open>isSeparatedParagraph(DocSimpleSect *parent, DocPara *par)\<close>. Each \<open>at\<close> is guarded
  by the test before it, so it is in range.
\<close>

definition isSeparatedParagraph :: "heap \<Rightarrow> ptr \<Rightarrow> ptr \<Rightarrow> bool" where
  "isSeparatedParagraph h parent par =
     (let nodes = m_children (h parent);
          i = QList_indexOf nodes par
      in if i = -1 then False
         else
           (let count = QList_count (m_children (h parent))
            in if count > 1 \<and> i = 0 then
                 (if kindAt h nodes (i + 1) = Some Kind_SimpleSectSep then True else False)
               else if count > 1 \<and> i = count - 1 then
                 (if kindAt h nodes (i - 1) = Some Kind_SimpleSectSep then True else False)
               else if count > 2 \<and> i > 0 \<and> i < count - 1 then
                 (if kindAt h nodes (i - 1) = Some Kind_SimpleSectSep \<and>
                     kindAt h nodes (i + 1) = Some Kind_SimpleSectSep then True else False)
               else False))"

text \<open>
  The branches of \<open>getParagraphContext\<close> that set \<open>isFirst\<close> and \<open>isLast\<close> from the
  parent's child list and then \<open>t\<close> to \<open>a\<close> if first and to \<open>b\<close> if last.
\<close>

definition firstLastContext ::
  "heap \<Rightarrow> ptr \<Rightarrow> ptr \<Rightarrow> int \<Rightarrow> int \<Rightarrow> (int \<times> bool \<times> bool) option" where
  "firstLastContext h parent p a b =
     do {
       isFirst \<leftarrow> isFirstChildNode h parent p;
       isLast \<leftarrow> isLastChildNode h parent p;
       let t = 0;
       let t = (if isFirst then a else t);
       let t = (if isLast then b else t);
       Some (t, isFirst, isLast)
     }"

text \<open>
  The context code of the par-block branch, from the kind of the node three levels up.
\<close>

definition parBlockContext :: "Kind \<Rightarrow> bool \<Rightarrow> bool \<Rightarrow> int" where
  "parBlockContext kind' isFirst isLast =
     (let t = 0;
          t = (if isFirst then
                 (if kind' = Kind_HtmlListItem \<or> kind' = Kind_SecRefItem then 1
                  else if kind' = Kind_HtmlDescData \<or> kind' = Kind_XRefItem \<or>
                          kind' = Kind_SimpleSect then 2
                  else if kind' = Kind_HtmlCell \<or> kind' = Kind_ParamList then 5
                  else t)
               else t);
          t = (if isLast then
                 (if kind' = Kind_HtmlListItem \<or> kind' = Kind_SecRefItem then 3
                  else if kind' = Kind_HtmlDescData \<or> kind' = Kind_XRefItem \<or>
                          kind' = Kind_SimpleSect then 4
                  else if kind' = Kind_HtmlCell \<or> kind' = Kind_ParamList then 6
                  else t)
               else t)
      in t)"

text \<open>
  \<open>getParagraphContext(DocPara *p, bool &isFirst, bool &isLast)\<close> returns \<open>t\<close> and the
  two flags. \<open>p\<close> is the address of a paragraph, so the test \<open>p &&\<close> holds.
\<close>

definition getParagraphContext :: "heap \<Rightarrow> ptr \<Rightarrow> (int \<times> bool \<times> bool) option" where
  "getParagraphContext h p =
     (case m_parent (h p) of
        None \<Rightarrow> Some (0, False, False)
      | Some parent \<Rightarrow>
          (case kindOf h parent of
             Kind_ParBlock \<Rightarrow>
               do {
                 let kind' =
                   (case m_parent (h parent) of
                      None \<Rightarrow> Kind_Para
                    | Some pp \<Rightarrow>
                        (case m_parent (h pp) of
                           None \<Rightarrow> Kind_Para
                         | Some ppp \<Rightarrow> kindOf h ppp));
                 isFirst \<leftarrow> isFirstChildNode h parent p;
                 isLast \<leftarrow> isLastChildNode h parent p;
                 Some (parBlockContext kind' isFirst isLast, isFirst, isLast)
               }
           | Kind_AutoListItem \<Rightarrow>
               do {
                 isFirst \<leftarrow> isFirstChildNode h parent p;
                 isLast \<leftarrow> isLastChildNode h parent p;
                 Some (1, isFirst, isLast)
               }
           | Kind_SimpleListItem \<Rightarrow> Some (1, True, True)
           | Kind_ParamList \<Rightarrow> Some (1, True, True)
           | Kind_HtmlListItem \<Rightarrow> firstLastContext h parent p 1 3
           | Kind_SecRefItem \<Rightarrow> firstLastContext h parent p 1 3
           | Kind_HtmlDescData \<Rightarrow> firstLastContext h parent p 2 4
           | Kind_XRefItem \<Rightarrow> firstLastContext h parent p 2 4
           | Kind_SimpleSect \<Rightarrow>
               do {
                 (t, isFirst, isLast) \<leftarrow> firstLastContext h parent p 2 4;
                 if isSeparatedParagraph h parent p then Some (t, True, True)
                 else Some (t, isFirst, isLast)
               }
           | Kind_HtmlCell \<Rightarrow> firstLastContext h parent p 5 6
           | _ \<Rightarrow> Some (0, False, False)))"

subsection \<open>Entering and leaving a paragraph\<close>

text \<open>
  The loops that skip whitespace nodes, forward from the start of the paragraph and
  backward from its end:
  \<^verbatim>\<open>while (nodeIndex < count && children().at(nodeIndex)->kind() == Kind_WhiteSpace) nodeIndex++;\<close>
  \<^verbatim>\<open>while (nodeIndex >= 0 && children().at(nodeIndex)->kind() == Kind_WhiteSpace) nodeIndex--;\<close>
  The callers start them inside the list, so that \<open>at\<close> is in range when the other
  conjunct holds.
\<close>

function skipWhiteSpaceForward :: "heap \<Rightarrow> ptr list \<Rightarrow> int \<Rightarrow> int" where
  "skipWhiteSpaceForward h cs nodeIndex =
     (if nodeIndex < QList_count cs \<and> kindAt h cs nodeIndex = Some Kind_WhiteSpace
      then skipWhiteSpaceForward h cs (nodeIndex + 1) else nodeIndex)"
  by pat_completeness auto
termination
  by (relation "measure (\<lambda>(h, cs, nodeIndex). nat (QList_count cs - nodeIndex))") auto

function skipWhiteSpaceBackward :: "heap \<Rightarrow> ptr list \<Rightarrow> int \<Rightarrow> int" where
  "skipWhiteSpaceBackward h cs nodeIndex =
     (if nodeIndex \<ge> 0 \<and> kindAt h cs nodeIndex = Some Kind_WhiteSpace
      then skipWhiteSpaceBackward h cs (nodeIndex - 1) else nodeIndex)"
  by pat_completeness auto
termination
  by (relation "measure (\<lambda>(h, cs, nodeIndex). nat (nodeIndex + 1))") auto

text \<open>
  The switch on the kind of the parent that starts \<open>visitPre(DocPara *)\<close> and
  \<open>visitPost(DocPara *)\<close>.
\<close>

definition paraNeedsTag :: "heap \<Rightarrow> ptr \<Rightarrow> bool" where
  "paraNeedsTag h p =
     (case m_parent (h p) of
        None \<Rightarrow> False
      | Some parent \<Rightarrow>
          (case kindOf h parent of
             Kind_Section \<Rightarrow> True
           | Kind_Internal \<Rightarrow> True
           | Kind_HtmlListItem \<Rightarrow> True
           | Kind_HtmlDescData \<Rightarrow> True
           | Kind_HtmlCell \<Rightarrow> True
           | Kind_SimpleListItem \<Rightarrow> True
           | Kind_AutoListItem \<Rightarrow> True
           | Kind_SimpleSect \<Rightarrow> True
           | Kind_XRefItem \<Rightarrow> True
           | Kind_Copy \<Rightarrow> True
           | Kind_HtmlBlockQuote \<Rightarrow> True
           | Kind_ParBlock \<Rightarrow> True
           | Kind_Root \<Rightarrow> \<not> singleLine (obj (h parent))
           | _ \<Rightarrow> False))"

text \<open>
  The table \<open>contexts[7]\<close> of \<open>visitPre(DocPara *)\<close>, and the two functions. As in
  \<open>getParagraphContext\<close>, \<open>p\<close> is the address of the paragraph that \<open>accept\<close> hands
  over, so the tests \<open>p &&\<close> hold. \<open>visitPost\<close> does not look at \<open>m_hide\<close>.
\<close>

definition contexts :: "string list" where
  "contexts =
     [[],
      '' class=\"startli\"'',
      '' class=\"startdd\"'',
      '' class=\"endli\"'',
      '' class=\"enddd\"'',
      '' class=\"starttd\"'',
      '' class=\"endtd\"'']"

definition visitPre_DocPara :: "heap \<Rightarrow> ptr \<Rightarrow> HtmlDocVisitor \<Rightarrow> HtmlDocVisitor option" where
  "visitPre_DocPara h p v =
     (if m_hide v then Some v
      else
        do {
          let needsTag = paraNeedsTag h p;
          let cs = m_children (h p);
          let nodeIndex = skipWhiteSpaceForward h cs 0;
          outside \<leftarrow>
            (if nodeIndex < QList_count cs
             then map_option mustBeOutsideParagraph (objAt h cs nodeIndex)
             else Some False);
          let needsTag = (if outside then False else needsTag);
          (t, isFirst, isLast) \<leftarrow> getParagraphContext h p;
          let needsTag = (if isFirst \<and> isLast then False else needsTag);
          if needsTag then
            do {
              c \<leftarrow> QList_at contexts t;
              Some (emit [Txt ''<p'', Txt c, Txt ''>''] v)
            }
          else Some v
        })"

definition visitPost_DocPara :: "heap \<Rightarrow> ptr \<Rightarrow> HtmlDocVisitor \<Rightarrow> HtmlDocVisitor option" where
  "visitPost_DocPara h p v =
     do {
       let needsTag = paraNeedsTag h p;
       let cs = m_children (h p);
       let nodeIndex = skipWhiteSpaceBackward h cs (QList_count cs - 1);
       outside \<leftarrow>
         (if nodeIndex \<ge> 0
          then map_option mustBeOutsideParagraph (objAt h cs nodeIndex)
          else Some False);
       let needsTag = (if outside then False else needsTag);
       (t, isFirst, isLast) \<leftarrow> getParagraphContext h p;
       let needsTag = (if isFirst \<and> isLast then False else needsTag);
       if needsTag then Some (emit [Txt (''</p>'' @ endl)] v) else Some v
     }"

subsection \<open>Closing and reopening a paragraph around a block\<close>

text \<open>
  The loop of \<open>insideStyleChange_OutsidePara(DocPara *para, int nodeIndex)\<close>, with
  \<open>styleMask\<close> as an argument; it leaves with \<open>True\<close> as soon as
  \<open>styleOutsideParagraph\<close> is set. \<open>|=\<close> and \<open>&\<close> work on the enumerator of the style.
\<close>

function insideStyleChange_loop :: "heap \<Rightarrow> ptr list \<Rightarrow> int \<Rightarrow> int \<Rightarrow> bool option" where
  "insideStyleChange_loop h cs nodeIndex styleMask =
     (if nodeIndex \<ge> 0 then
        (case QList_at cs nodeIndex of
           None \<Rightarrow> None
         | Some n \<Rightarrow>
             if kindOf h n = Kind_StyleChange then
               (let sc = obj (h n);
                    styleMask' =
                      (if \<not> enable sc then styleMask OR Style_int (style sc) else styleMask);
                    paraStyle =
                      (style sc = Center \<or> style sc = Div \<or> style sc = Preformatted)
                in if enable sc \<and> (styleMask' AND Style_int (style sc)) = 0 \<and> paraStyle
                   then Some True
                   else insideStyleChange_loop h cs (nodeIndex - 1) styleMask')
             else insideStyleChange_loop h cs (nodeIndex - 1) styleMask)
      else Some False)"
  by pat_completeness auto
termination
  by (relation "measure (\<lambda>(h, cs, nodeIndex, styleMask). nat (nodeIndex + 1))") auto

definition insideStyleChange_OutsidePara :: "heap \<Rightarrow> ptr \<Rightarrow> int \<Rightarrow> bool option" where
  "insideStyleChange_OutsidePara h para nodeIndex =
     insideStyleChange_loop h (m_children (h para)) nodeIndex 0"

definition forceEndParagraph :: "heap \<Rightarrow> ptr \<Rightarrow> HtmlDocVisitor \<Rightarrow> HtmlDocVisitor option" where
  "forceEndParagraph h n v =
     (case m_parent (h n) of
        None \<Rightarrow> Some v
      | Some para \<Rightarrow>
          if kindOf h para \<noteq> Kind_Para then Some v
          else
            (let cs = m_children (h para);
                 nodeIndex = QList_indexOf cs n;
                 nodeIndex = nodeIndex - 1
             in if nodeIndex < 0 then Some v
                else
                  do {
                    let nodeIndex = skipWhiteSpaceBackward h cs nodeIndex;
                    outside \<leftarrow>
                      (if nodeIndex \<ge> 0
                       then map_option mustBeOutsideParagraph (objAt h cs nodeIndex)
                       else Some False);
                    if outside then Some v
                    else
                      do {
                        let nodeIndex = nodeIndex - 1;
                        styleOutsideParagraph \<leftarrow>
                          insideStyleChange_OutsidePara h para nodeIndex;
                        (t, isFirst, isLast) \<leftarrow> getParagraphContext h para;
                        if isFirst \<and> isLast then Some v
                        else if styleOutsideParagraph then Some v
                        else Some (emit [Txt ''</p>''] v)
                      }
                  }))"

definition forceStartParagraph :: "heap \<Rightarrow> ptr \<Rightarrow> HtmlDocVisitor \<Rightarrow> HtmlDocVisitor option" where
  "forceStartParagraph h n v =
     (case m_parent (h n) of
        None \<Rightarrow> Some v
      | Some para \<Rightarrow>
          if kindOf h para \<noteq> Kind_Para then Some v
          else
            do {
              let cs = m_children (h para);
              let nodeIndex = QList_indexOf cs n;
              let numNodes = QList_count cs;
              styleOutsideParagraph \<leftarrow> insideStyleChange_OutsidePara h para nodeIndex;
              if styleOutsideParagraph then Some v
              else
                (let nodeIndex = nodeIndex + 1
                 in if nodeIndex = numNodes then Some v
                    else
                      (let nodeIndex = skipWhiteSpaceForward h cs nodeIndex
                       in if nodeIndex < numNodes then
                            do {
                              n' \<leftarrow> objAt h cs nodeIndex;
                              if mustBeOutsideParagraph n' then Some v
                              else
                                do {
                                  (t, isFirst, isLast) \<leftarrow> getParagraphContext h para;
                                  if isFirst \<and> isLast then Some v
                                  else Some (emit [Txt ''<p>''] v)
                                }
                            }
                          else Some v))
            })"


subsection \<open>Parameter rows\<close>

text \<open>\<open>visit(DocWord *)\<close> and \<open>visit(DocLinkedWord *)\<close>.\<close>

definition visit_DocWord :: "heap \<Rightarrow> ptr \<Rightarrow> HtmlDocVisitor \<Rightarrow> HtmlDocVisitor" where
  "visit_DocWord h w v =
     (if m_hide v then v else emit [Filter (word (obj (h w)))] v)"

definition visit_DocLinkedWord :: "heap \<Rightarrow> ptr \<Rightarrow> HtmlDocVisitor \<Rightarrow> HtmlDocVisitor" where
  "visit_DocLinkedWord h w v =
     (if m_hide v then v
      else
        (let o' = obj (h w)
         in emit [StartLink (ref o') (m_file o') (relPath o') (anchor o') (tooltip o'),
                  Filter (word o'), EndLink] v))"

text \<open>
  The two loops of \<open>visitPre(DocParamList *)\<close> over \<open>paramTypes()\<close> and
  \<open>parameters()\<close>: a separator before every entry but the first, then the word or the
  linked word (an entry of another kind writes nothing).
\<close>

fun visitParamWords ::
  "heap \<Rightarrow> string \<Rightarrow> ptr list \<Rightarrow> bool \<Rightarrow> HtmlDocVisitor \<Rightarrow> HtmlDocVisitor" where
  "visitParamWords h sep [] first v = v"
| "visitParamWords h sep (param # params) first v =
     (let v = (if \<not> first then emit [Txt sep] v else v);
          v = (if kindOf h param = Kind_Word then visit_DocWord h param v
               else if kindOf h param = Kind_LinkedWord then visit_DocLinkedWord h param v
               else v)
      in visitParamWords h sep params False v)"

definition paramdirCell :: string where
  "paramdirCell = ''<td class=\"paramdir\">''"

definition paramtypeCell :: string where
  "paramtypeCell = ''<td class=\"paramtype\">''"

text \<open>
  \<open>visitPre(DocParamList *pl)\<close>. \<open>pl->parent()->kind()\<close> dereferences the parent: a
  null parent is the failure \<open>None\<close>.
\<close>

definition visitPre_DocParamList ::
  "heap \<Rightarrow> ptr \<Rightarrow> HtmlDocVisitor \<Rightarrow> HtmlDocVisitor option" where
  "visitPre_DocParamList h pl v =
     (if m_hide v then Some v
      else
        (let v = emit [Txt ''    <tr>''] v
         in case m_parent (h pl) of
              None \<Rightarrow> None
            | Some parent \<Rightarrow>
                (let sect = (if kindOf h parent = Kind_ParamSect then Some parent else None);
                     d = direction (obj (h pl));
                     v = (if (case sect of None \<Rightarrow> False
                              | Some s \<Rightarrow> hasInOutSpecifier (obj (h s))) then
                            (let v = emit [Txt paramdirCell] v;
                                 v = (if d \<noteq> Unspecified then
                                        (let v = emit [Txt ''[''] v;
                                             v = (if d = In then emit [Txt ''in''] v
                                                  else if d = Out then emit [Txt ''out''] v
                                                  else if d = InOut then emit [Txt ''in,out''] v
                                                  else v)
                                         in emit [Txt '']''] v)
                                      else v)
                             in emit [Txt ''</td>''] v)
                          else v);
                     v = (if (case sect of None \<Rightarrow> False
                              | Some s \<Rightarrow> hasTypeSpecifier (obj (h s))) then
                            (let v = emit [Txt paramtypeCell] v;
                                 v = visitParamWords h ''&#160;|&#160;''
                                       (paramTypes (obj (h pl))) True v
                             in emit [Txt ''</td>''] v)
                          else v);
                     v = emit [Txt ''<td class=\"paramname\">''] v;
                     v = visitParamWords h '','' (parameters (obj (h pl))) True v
                 in Some (emit [Txt ''</td><td>''] v))))"

subsection \<open>Auto lists\<close>

text \<open>
  \<^verbatim>\<open>static const int NUM_HTML_LIST_TYPES = 4;\<close>
  \<^verbatim>\<open>static const char types[][NUM_HTML_LIST_TYPES] = {"1", "a", "i", "A"};\<close>
\<close>

definition NUM_HTML_LIST_TYPES :: int where
  "NUM_HTML_LIST_TYPES = 4"

definition types :: "string list" where
  "types = [''1'', ''a'', ''i'', ''A'']"

text \<open>
  The \<open>%\<close> of C++ on \<open>int\<close> truncates towards zero: the remainder has the sign of the
  dividend. A negative index into \<open>types\<close> is outside the array (\<open>None\<close>).
\<close>

definition cpp_rem :: "int \<Rightarrow> int \<Rightarrow> int" where
  "cpp_rem a b = sgn a * (\<bar>a\<bar> mod \<bar>b\<bar>)"

definition visitPre_DocAutoList ::
  "heap \<Rightarrow> ptr \<Rightarrow> HtmlDocVisitor \<Rightarrow> HtmlDocVisitor option" where
  "visitPre_DocAutoList h l v =
     (if m_hide v then Some v
      else
        do {
          v \<leftarrow> forceEndParagraph h l v;
          v \<leftarrow>
            (if isEnumList (obj (h l)) then
               do {
                 ty \<leftarrow> QList_at types (cpp_rem (depth (obj (h l))) NUM_HTML_LIST_TYPES);
                 Some (emit [Txt ''<ol type=\"'', Txt ty, Txt ''\">''] v)
               }
             else Some (emit [Txt ''<ul>''] v));
          Some (if \<not> m_insidePre (h l) then emit [Txt endl] v else v)
        })"


section \<open>Visitor dispatch (docparser.h)\<close>

text \<open>
  A visitor supplies \<open>visit\<close>, \<open>visitPre\<close> and \<open>visitPost\<close> (the overloads of the C++ for
  each class are one function of the node here). It is handed the address of a node and
  may read the store; \<open>'s\<close> is whatever state the visitor keeps.
\<close>

record 's DocVisitor =
  visit :: "heap \<Rightarrow> ptr \<Rightarrow> 's \<Rightarrow> 's"
  visitPre :: "heap \<Rightarrow> ptr \<Rightarrow> 's \<Rightarrow> 's"
  visitPost :: "heap \<Rightarrow> ptr \<Rightarrow> 's \<Rightarrow> 's"

text \<open>
  The shapes of the \<open>accept\<close> bodies of the header: \<open>v->visit(this)\<close>; the empty
  body of \<open>DocCopy\<close>; \<open>visitPre\<close>, \<open>accept\<close> of the children through the pointers
  of a list, \<open>visitPost\<close>; and \<open>visitPre\<close>, \<open>accept\<close> of a copy of each paragraph of
  a list of paragraph objects, \<open>visitPost\<close>.
\<close>

datatype AcceptBody =
    CallsVisit
  | CallsNothing
  | PreChildrenPost "ptr list"
  | PreCopiesPost "ptr list"

text \<open>
  Modelled from the spec: the bodies of \<open>DocSimpleSect::accept\<close> and
  \<open>DocHtmlTable::accept\<close>, which the header declares and docparser.cpp (not among the
  sources) defines. Both classes are composite, and the specification lets a composite
  node call \<open>visitPre\<close>, dispatch \<open>accept\<close> to each child in child-list order and call
  \<open>visitPost\<close>.
\<close>

definition outOfLineAccept :: "DocNode \<Rightarrow> AcceptBody" where
  "outOfLineAccept n = PreChildrenPost (m_children n)"

text \<open>
  \<open>CompAccept<T>::accept(T *obj, DocVisitor *v)\<close> iterates over \<open>m_children\<close>.
\<close>

definition CompAccept_accept :: "DocNode \<Rightarrow> AcceptBody" where
  "CompAccept_accept n = PreChildrenPost (m_children n)"

text \<open>
  \<open>DocParamList::accept\<close>:
  \<^verbatim>\<open>v->visitPre(this); for (auto n : m_paragraphs) { n.accept(v); } v->visitPost(this);\<close>
  The member is \<^verbatim>\<open>QList<DocPara> m_paragraphs\<close>, a list of paragraph objects, so the
  loop variable \<open>n\<close> is a \<open>DocPara\<close>: each round copies a paragraph of the list into
  \<open>n\<close> and calls \<open>accept\<close> of the copy.
\<close>

definition DocParamList_accept :: "ptr list \<Rightarrow> AcceptBody" where
  "DocParamList_accept paragraphs = PreCopiesPost paragraphs"

text \<open>The body of \<open>accept\<close> in each class, in the order of the header.\<close>

definition acceptBody :: "DocNode \<Rightarrow> AcceptBody" where
  "acceptBody n =
     (case obj n of
        DocWord _ \<Rightarrow> CallsVisit
      | DocLinkedWord _ _ _ _ _ _ \<Rightarrow> CallsVisit
      | DocURL \<Rightarrow> CallsVisit
      | DocLineBreak \<Rightarrow> CallsVisit
      | DocHorRuler \<Rightarrow> CallsVisit
      | DocAnchor \<Rightarrow> CallsVisit
      | DocCite \<Rightarrow> CallsVisit
      | DocStyleChange _ _ \<Rightarrow> CallsVisit
      | DocSymbol \<Rightarrow> CallsVisit
      | DocWhiteSpace \<Rightarrow> CallsVisit
      | DocVerbatim _ _ \<Rightarrow> CallsVisit
      | DocInclude \<Rightarrow> CallsVisit
      | DocIncOperator \<Rightarrow> CallsVisit
      | DocFormula _ \<Rightarrow> CallsVisit
      | DocIndexEntry \<Rightarrow> CallsVisit
      | DocCopy \<Rightarrow> CallsNothing
      | DocAutoList _ _ \<Rightarrow> CompAccept_accept n
      | DocAutoListItem \<Rightarrow> CompAccept_accept n
      | DocTitle \<Rightarrow> CompAccept_accept n
      | DocXRefItem \<Rightarrow> CompAccept_accept n
      | DocImage \<Rightarrow> CompAccept_accept n
      | DocDotFile \<Rightarrow> CompAccept_accept n
      | DocMscFile \<Rightarrow> CompAccept_accept n
      | DocDiaFile \<Rightarrow> CompAccept_accept n
      | DocLink \<Rightarrow> CompAccept_accept n
      | DocRef \<Rightarrow> CompAccept_accept n
      | DocInternalRef \<Rightarrow> CompAccept_accept n
      | DocHRef \<Rightarrow> CompAccept_accept n
      | DocHtmlHeader \<Rightarrow> CompAccept_accept n
      | DocHtmlDescTitle \<Rightarrow> CompAccept_accept n
      | DocHtmlDescList \<Rightarrow> CompAccept_accept n
      | DocSection \<Rightarrow> CompAccept_accept n
      | DocSecRefItem \<Rightarrow> CompAccept_accept n
      | DocSecRefList \<Rightarrow> CompAccept_accept n
      | DocInternal \<Rightarrow> CompAccept_accept n
      | DocParBlock \<Rightarrow> CompAccept_accept n
      | DocSimpleList \<Rightarrow> CompAccept_accept n
      | DocHtmlList \<Rightarrow> CompAccept_accept n
      | DocSimpleSect \<Rightarrow> outOfLineAccept n
      | DocSimpleSectSep \<Rightarrow> CallsVisit
      | DocParamSect _ _ \<Rightarrow> CompAccept_accept n
      | DocPara \<Rightarrow> CompAccept_accept n
      | DocParamList _ paragraphs _ _ \<Rightarrow> DocParamList_accept paragraphs
      | DocSimpleListItem paragraph \<Rightarrow> PreChildrenPost [paragraph]
      | DocHtmlListItem \<Rightarrow> CompAccept_accept n
      | DocHtmlDescData \<Rightarrow> CompAccept_accept n
      | DocHtmlCell \<Rightarrow> CompAccept_accept n
      | DocHtmlCaption \<Rightarrow> CompAccept_accept n
      | DocHtmlRow \<Rightarrow> CompAccept_accept n
      | DocHtmlTable \<Rightarrow> outOfLineAccept n
      | DocHtmlBlockQuote \<Rightarrow> CompAccept_accept n
      | DocText \<Rightarrow> CompAccept_accept n
      | DocRoot _ _ \<Rightarrow> CompAccept_accept n)"

text \<open>
  \<open>accept\<close> follows the child lists of the store. It threads the state of the visitor
  and the set of the pointers that have been handed to \<open>delete\<close>; a call through a
  deleted pointer is undefined, which is the value \<open>None\<close>. The first argument bounds
  the depth of the calls: \<open>None\<close> is also a traversal that is deeper than the bound,
  which is what a store whose child lists loop would give for every bound.

  In a round of the loop of \<open>DocParamList::accept\<close>, \<open>n\<close> is a copy of the paragraph
  \<open>p\<close>, with the same parent and the same child pointers; it lives at the address of the
  loop variable, \<open>tmp\<close> of the depth of the call, and not at \<open>p\<close>.
  \<open>n.accept(v)\<close> is \<open>CompAccept<DocPara>::accept(&n, v)\<close>: the visitor is handed the
  address of the copy. When the round ends, \<open>n\<close> is destroyed, and
  \<open>~CompAccept\<close> deletes every pointer of its child list
  (\<^verbatim>\<open>for (auto item : m_children) { delete item; }\<close>), which are the children of \<open>p\<close>.
  The set lists these pointers only: what a deleted child owns is destroyed with it, and
  a traversal of a tree reaches it through the pointer of the child and no other way.
\<close>

fun accept ::
    "nat \<Rightarrow> (nat \<Rightarrow> ptr) \<Rightarrow> heap \<Rightarrow> 's DocVisitor \<Rightarrow> ptr \<Rightarrow> 's \<times> ptr set \<Rightarrow>
      ('s \<times> ptr set) option"
  and acceptChildren ::
    "nat \<Rightarrow> (nat \<Rightarrow> ptr) \<Rightarrow> heap \<Rightarrow> 's DocVisitor \<Rightarrow> ptr list \<Rightarrow> 's \<times> ptr set \<Rightarrow>
      ('s \<times> ptr set) option"
  and acceptCopies ::
    "nat \<Rightarrow> (nat \<Rightarrow> ptr) \<Rightarrow> heap \<Rightarrow> 's DocVisitor \<Rightarrow> ptr list \<Rightarrow> 's \<times> ptr set \<Rightarrow>
      ('s \<times> ptr set) option" where
  "accept 0 tmp h v p st = None"
| "accept (Suc k) tmp h v p (s, deleted) =
     (if p \<in> deleted then None
      else
        (case acceptBody (h p) of
           CallsVisit \<Rightarrow> Some (visit v h p s, deleted)
         | CallsNothing \<Rightarrow> Some (s, deleted)
         | PreChildrenPost cs \<Rightarrow>
             (case acceptChildren k tmp h v cs (visitPre v h p s, deleted) of
                None \<Rightarrow> None
              | Some (s', deleted') \<Rightarrow> Some (visitPost v h p s', deleted'))
         | PreCopiesPost ps \<Rightarrow>
             (case acceptCopies k tmp h v ps (visitPre v h p s, deleted) of
                None \<Rightarrow> None
              | Some (s', deleted') \<Rightarrow> Some (visitPost v h p s', deleted'))))"
| "acceptChildren k tmp h v [] st = Some st"
| "acceptChildren k tmp h v (n # ns) st =
     (case accept k tmp h v n st of
        None \<Rightarrow> None
      | Some st' \<Rightarrow> acceptChildren k tmp h v ns st')"
| "acceptCopies k tmp h v [] st = Some st"
| "acceptCopies 0 tmp h v (p # ps) st = None"
| "acceptCopies (Suc k) tmp h v (p # ps) (s, deleted) =
     (let n = tmp (Suc k);
          h' = h(n := h p)
      in case acceptChildren k tmp h' v (m_children (h' n)) (visitPre v h' n s, deleted) of
           None \<Rightarrow> None
         | Some (s', deleted') \<Rightarrow>
             acceptCopies (Suc k) tmp h v ps
               (visitPost v h' n s', deleted' \<union> set (m_children (h' n))))"

text \<open>
  The data model's classification of the classes: leaves have no child list; composite
  nodes own an ordered child list (\<open>m_children\<close>, the paragraphs of a parameter list,
  the paragraph of a simple list item); a copy node is neither.
\<close>

definition isLeafClass :: "DocClass \<Rightarrow> bool" where
  "isLeafClass c =
     (kind c \<in> {Kind_Word, Kind_LinkedWord, Kind_URL, Kind_LineBreak, Kind_HorRuler,
                 Kind_Anchor, Kind_StyleChange, Kind_Symbol, Kind_WhiteSpace, Kind_Verbatim,
                 Kind_Include, Kind_IncOperator, Kind_Formula, Kind_IndexEntry,
                 Kind_SimpleSectSep} \<or> c = DocCite)"

definition isCompositeClass :: "DocClass \<Rightarrow> bool" where
  "isCompositeClass c = (\<not> isLeafClass c \<and> c \<noteq> DocCopy)"

definition childList :: "DocNode \<Rightarrow> ptr list" where
  "childList n =
     (case obj n of
        DocParamList _ paragraphs _ _ \<Rightarrow> paragraphs
      | DocSimpleListItem paragraph \<Rightarrow> [paragraph]
      | _ \<Rightarrow> m_children n)"

text \<open>
  The calls a traversal makes, and the visitor that records them.
\<close>

datatype Call = Visit ptr | VisitPre ptr | VisitPost ptr

definition recorder :: "Call list DocVisitor" where
  "recorder =
     \<lparr>visit = (\<lambda>h p s. s @ [Visit p]),
      visitPre = (\<lambda>h p s. s @ [VisitPre p]),
      visitPost = (\<lambda>h p s. s @ [VisitPost p])\<rparr>"

section \<open>Notions used in the statements\<close>

text \<open>
  The first, respectively the last, child that is not a whitespace node exists and is
  classified as must-be-outside-paragraph.
\<close>

definition firstNonWhiteSpaceOutside :: "heap \<Rightarrow> ptr list \<Rightarrow> bool" where
  "firstNonWhiteSpaceOutside h cs =
     (\<exists>j<length cs. (\<forall>k<j. kindOf h (cs ! k) = Kind_WhiteSpace) \<and>
        mustBeOutsideParagraph (obj (h (cs ! j))))"

definition lastNonWhiteSpaceOutside :: "heap \<Rightarrow> ptr list \<Rightarrow> bool" where
  "lastNonWhiteSpaceOutside h cs =
     (\<exists>j<length cs. (\<forall>k. j < k \<and> k < length cs \<longrightarrow> kindOf h (cs ! k) = Kind_WhiteSpace) \<and>
        mustBeOutsideParagraph (obj (h (cs ! j))))"

text \<open>
  A Center, Div or Preformatted style is open at position \<open>i\<close> of a child list: some
  position \<open>j \<le> i\<close> holds a node that enables such a style, and no position after
  \<open>j\<close> up to \<open>i\<close> holds a node that disables the same style.
\<close>

definition openStyleAt :: "heap \<Rightarrow> ptr list \<Rightarrow> nat \<Rightarrow> bool" where
  "openStyleAt h cs i =
     (\<exists>j \<in> set [0..<Suc i]. j < length cs \<and>
        kindOf h (cs ! j) = Kind_StyleChange \<and> enable (obj (h (cs ! j))) \<and>
        style (obj (h (cs ! j))) \<in> {Center, Div, Preformatted} \<and>
        (\<forall>k \<in> set [Suc j..<Suc i]. k < length cs \<longrightarrow>
           \<not> (kindOf h (cs ! k) = Kind_StyleChange \<and> \<not> enable (obj (h (cs ! k))) \<and>
              style (obj (h (cs ! k))) = style (obj (h (cs ! j))))))"

text \<open>
  The calls that the dispatch protocol prescribes for the tree under \<open>p\<close>, down to
  depth \<open>k\<close>: a leaf is visited once; a composite node is entered, its children follow
  in the order of the child list, and it is left; a copy node calls nothing.
\<close>

fun calls :: "nat \<Rightarrow> heap \<Rightarrow> ptr \<Rightarrow> Call list" where
  "calls 0 h p = []"
| "calls (Suc k) h p =
     (if isLeafClass (obj (h p)) then [Visit p]
      else if isCompositeClass (obj (h p)) then
        [VisitPre p] @ concat (map (calls k h) (childList (h p))) @ [VisitPost p]
      else [])"


section \<open>Example documents\<close>

definition node :: "DocClass \<Rightarrow> ptr option \<Rightarrow> ptr list \<Rightarrow> DocNode" where
  "node c p cs = \<lparr>obj = c, m_parent = p, m_insidePre = False, m_children = cs\<rparr>"

definition noNodes :: heap where
  "noNodes = (\<lambda>_. node DocText None [])"

definition visitor0 :: HtmlDocVisitor where
  "visitor0 = \<lparr>m_t = [], m_hide = False\<rparr>"

text \<open>
  The addresses of the loop variable of \<open>DocParamList::accept\<close>, one for each depth of
  call, away from the nodes of the examples.
\<close>

definition loopVariable :: "nat \<Rightarrow> ptr" where
  "loopVariable k = 100 + k"

text \<open>A paragraph under the root: a word, a rule, whitespace, a rule.\<close>

definition docRules :: "bool \<Rightarrow> heap" where
  "docRules sl = noNodes
     (0 := node (DocRoot False sl) None [1],
      1 := node DocPara (Some 0) [2, 3, 4, 5],
      2 := node (DocWord ''a'') (Some 1) [],
      3 := node DocHorRuler (Some 1) [],
      4 := node DocWhiteSpace (Some 1) [],
      5 := node DocHorRuler (Some 1) [])"


text \<open>
  \<^verbatim>\<open><center><em>a</em>b<hr/>c\<close>: the paragraph holds center on, italic on, a word,
  italic off, a word, a rule, a word; the center is not closed.
\<close>

definition docCenter :: heap where
  "docCenter = noNodes
     (0 := node (DocRoot False False) None [1],
      1 := node DocPara (Some 0) [2, 3, 4, 5, 6, 7, 8],
      2 := node (DocStyleChange Center True) (Some 1) [],
      3 := node (DocStyleChange Italic True) (Some 1) [],
      4 := node (DocWord ''a'') (Some 1) [],
      5 := node (DocStyleChange Italic False) (Some 1) [],
      6 := node (DocWord ''b'') (Some 1) [],
      7 := node DocHorRuler (Some 1) [],
      8 := node (DocWord ''c'') (Some 1) [])"


text \<open>A simple list item, whose paragraph holds a word, a rule and a word.\<close>

definition docListItem :: heap where
  "docListItem = noNodes
     (0 := node (DocRoot False False) None [1],
      1 := node DocPara (Some 0) [2],
      2 := node DocSimpleList (Some 1) [3],
      3 := node (DocSimpleListItem 4) (Some 2) [],
      4 := node DocPara (Some 3) [5, 6, 7],
      5 := node (DocWord ''a'') (Some 4) [],
      6 := node DocHorRuler (Some 4) [],
      7 := node (DocWord ''b'') (Some 4) [])"

text \<open>A simple section of two paragraphs with a separator between them.\<close>

definition docSections :: heap where
  "docSections = noNodes
     (0 := node (DocRoot False False) None [1],
      1 := node DocPara (Some 0) [2],
      2 := node DocSimpleSect (Some 1) [3, 4, 5],
      3 := node DocPara (Some 2) [6],
      4 := node DocSimpleSectSep (Some 2) [],
      5 := node DocPara (Some 2) [7],
      6 := node (DocWord ''a'') (Some 3) [],
      7 := node (DocWord ''b'') (Some 5) [])"

text \<open>
  A parameter section with one row (two names, one type, direction unspecified) and an
  enumerated auto list of depth 5.
\<close>

definition docParams :: "bool \<Rightarrow> bool \<Rightarrow> heap" where
  "docParams io ty = noNodes
     (0 := node (DocRoot False False) None [1],
      1 := node DocPara (Some 0) [2, 9],
      2 := node (DocParamSect io ty) (Some 1) [3],
      3 := node (DocParamList Unspecified [4] [5, 6] [7]) (Some 2) [],
      4 := node DocPara (Some 3) [8],
      5 := node (DocWord ''x'') (Some 3) [],
      6 := node (DocLinkedWord ''y'' [] ''f'' [] ''a'' []) (Some 3) [],
      7 := node (DocWord ''int'') (Some 3) [],
      8 := node (DocWord ''text'') (Some 4) [],
      9 := node (DocAutoList True 5) (Some 1) [])"


section \<open>Auxiliary facts\<close>

declare skipWhiteSpaceForward.simps [simp del]
declare skipWhiteSpaceBackward.simps [simp del]
declare insideStyleChange_loop.simps [simp del]

subsection \<open>Lists\<close>

lemma QList_indexOf_bounds:
  "- 1 \<le> QList_indexOf xs x \<and> QList_indexOf xs x < int (length xs)"
  by (induction xs) (auto simp add: Let_def)

lemma QList_indexOf_nth:
  "QList_indexOf xs x = int i \<Longrightarrow> i < length xs \<and> xs ! i = x"
proof (induction xs arbitrary: i)
  case Nil
  then show ?case by simp
next
  case (Cons y ys)
  show ?case
  proof (cases "y = x")
    case True
    with Cons.prems show ?thesis by simp
  next
    case False
    with Cons.prems have found: "QList_indexOf ys x \<noteq> - 1"
      and eq: "QList_indexOf ys x + 1 = int i"
      by (auto simp add: Let_def split: if_splits)
    from eq QList_indexOf_bounds [of ys x] found obtain i' where i': "i = Suc i'"
      by (cases i) auto
    with eq have "QList_indexOf ys x = int i'" by simp
    from Cons.IH [OF this] i' show ?thesis by simp
  qed
qed

lemma QList_indexOf_distinct:
  "distinct xs \<Longrightarrow> i < length xs \<Longrightarrow> QList_indexOf xs (xs ! i) = int i"
proof (induction xs arbitrary: i)
  case Nil
  then show ?case by simp
next
  case (Cons y ys)
  show ?case
  proof (cases i)
    case 0
    then show ?thesis by simp
  next
    case (Suc i')
    with Cons.prems have "y \<noteq> ys ! i'" and "QList_indexOf ys (ys ! i') = int i'"
      using Cons.IH [of i'] by auto
    with Suc show ?thesis by (simp add: Let_def)
  qed
qed

lemma objAt_in_range:
  "0 \<le> i \<Longrightarrow> i < QList_count cs \<Longrightarrow> objAt h cs i = Some (obj (h (cs ! nat i)))"
  by (simp add: objAt_def QList_at_def)

lemma kindAt_in_range:
  "0 \<le> i \<Longrightarrow> i < QList_count cs \<Longrightarrow> kindAt h cs i = Some (kindOf h (cs ! nat i))"
  by (simp add: kindAt_def QList_at_def)

lemma mustBeOutsideParagraph_not_whitespace:
  "mustBeOutsideParagraph c \<Longrightarrow> kind c \<noteq> Kind_WhiteSpace"
  by (auto simp add: mustBeOutsideParagraph_def)

subsection \<open>The whitespace loops\<close>

lemma skipWhiteSpaceForward_ge: "i \<le> skipWhiteSpaceForward h cs i"
proof (induction h cs i rule: skipWhiteSpaceForward.induct)
  case (1 h cs i)
  show ?case
  proof (cases "i < QList_count cs \<and> kindAt h cs i = Some Kind_WhiteSpace")
    case True
    with "1.IH" have "i + 1 \<le> skipWhiteSpaceForward h cs (i + 1)" by simp
    with True show ?thesis by (subst skipWhiteSpaceForward.simps) simp
  next
    case False
    then show ?thesis by (subst skipWhiteSpaceForward.simps) auto
  qed
qed

lemma skipWhiteSpaceForward_skipped:
  "i \<le> k \<Longrightarrow> k < skipWhiteSpaceForward h cs i \<Longrightarrow> kindAt h cs k = Some Kind_WhiteSpace"
proof (induction h cs i rule: skipWhiteSpaceForward.induct)
  case (1 h cs i)
  show ?case
  proof (cases "i < QList_count cs \<and> kindAt h cs i = Some Kind_WhiteSpace")
    case True
    then have unfold: "skipWhiteSpaceForward h cs i = skipWhiteSpaceForward h cs (i + 1)"
      by (subst skipWhiteSpaceForward.simps) simp
    show ?thesis
    proof (cases "k = i")
      case True
      with \<open>i < QList_count cs \<and> kindAt h cs i = Some Kind_WhiteSpace\<close> show ?thesis by simp
    next
      case False
      with "1.prems" unfold True "1.IH" show ?thesis by simp
    qed
  next
    case False
    then have "skipWhiteSpaceForward h cs i = i"
      by (subst skipWhiteSpaceForward.simps) auto
    with "1.prems" show ?thesis by simp
  qed
qed

lemma skipWhiteSpaceForward_stops:
  "skipWhiteSpaceForward h cs i < QList_count cs \<Longrightarrow>
   kindAt h cs (skipWhiteSpaceForward h cs i) \<noteq> Some Kind_WhiteSpace"
proof (induction h cs i rule: skipWhiteSpaceForward.induct)
  case (1 h cs i)
  show ?case
  proof (cases "i < QList_count cs \<and> kindAt h cs i = Some Kind_WhiteSpace")
    case True
    then have "skipWhiteSpaceForward h cs i = skipWhiteSpaceForward h cs (i + 1)"
      by (subst skipWhiteSpaceForward.simps) simp
    with "1.prems" "1.IH" True show ?thesis by simp
  next
    case False
    then have "skipWhiteSpaceForward h cs i = i"
      by (subst skipWhiteSpaceForward.simps) auto
    with "1.prems" False show ?thesis by simp
  qed
qed

lemma skipWhiteSpaceBackward_le: "skipWhiteSpaceBackward h cs i \<le> i"
proof (induction h cs i rule: skipWhiteSpaceBackward.induct)
  case (1 h cs i)
  show ?case
  proof (cases "i \<ge> 0 \<and> kindAt h cs i = Some Kind_WhiteSpace")
    case True
    with "1.IH" have "skipWhiteSpaceBackward h cs (i - 1) \<le> i - 1" by simp
    with True show ?thesis by (subst skipWhiteSpaceBackward.simps) simp
  next
    case False
    then show ?thesis by (subst skipWhiteSpaceBackward.simps) auto
  qed
qed

lemma skipWhiteSpaceBackward_skipped:
  "skipWhiteSpaceBackward h cs i < k \<Longrightarrow> k \<le> i \<Longrightarrow> kindAt h cs k = Some Kind_WhiteSpace"
proof (induction h cs i rule: skipWhiteSpaceBackward.induct)
  case (1 h cs i)
  show ?case
  proof (cases "i \<ge> 0 \<and> kindAt h cs i = Some Kind_WhiteSpace")
    case True
    then have unfold: "skipWhiteSpaceBackward h cs i = skipWhiteSpaceBackward h cs (i - 1)"
      by (subst skipWhiteSpaceBackward.simps) simp
    show ?thesis
    proof (cases "k = i")
      case True
      with \<open>i \<ge> 0 \<and> kindAt h cs i = Some Kind_WhiteSpace\<close> show ?thesis by simp
    next
      case False
      with "1.prems" unfold True "1.IH" show ?thesis by simp
    qed
  next
    case False
    then have "skipWhiteSpaceBackward h cs i = i"
      by (subst skipWhiteSpaceBackward.simps) auto
    with "1.prems" show ?thesis by simp
  qed
qed

lemma skipWhiteSpaceBackward_stops:
  "skipWhiteSpaceBackward h cs i \<ge> 0 \<Longrightarrow>
   kindAt h cs (skipWhiteSpaceBackward h cs i) \<noteq> Some Kind_WhiteSpace"
proof (induction h cs i rule: skipWhiteSpaceBackward.induct)
  case (1 h cs i)
  show ?case
  proof (cases "i \<ge> 0 \<and> kindAt h cs i = Some Kind_WhiteSpace")
    case True
    then have "skipWhiteSpaceBackward h cs i = skipWhiteSpaceBackward h cs (i - 1)"
      by (subst skipWhiteSpaceBackward.simps) simp
    with "1.prems" "1.IH" True show ?thesis by simp
  next
    case False
    then have "skipWhiteSpaceBackward h cs i = i"
      by (subst skipWhiteSpaceBackward.simps) auto
    with "1.prems" False show ?thesis by simp
  qed
qed

text \<open>
  The backward loop stops at the nearest node that is not whitespace.
\<close>

lemma skipWhiteSpaceBackward_nearest:
  assumes "0 \<le> j" "j \<le> i"
    and "kindAt h cs j \<noteq> Some Kind_WhiteSpace"
    and "\<forall>k. j < k \<and> k \<le> i \<longrightarrow> kindAt h cs k = Some Kind_WhiteSpace"
  shows "skipWhiteSpaceBackward h cs i = j"
proof -
  let ?r = "skipWhiteSpaceBackward h cs i"
  have "?r \<le> i" by (rule skipWhiteSpaceBackward_le)
  have "\<not> ?r < j"
    using skipWhiteSpaceBackward_skipped [of h cs i j] assms by auto
  moreover have "\<not> j < ?r"
  proof
    assume "j < ?r"
    with assms(1) have "?r \<ge> 0" by simp
    then have "kindAt h cs ?r \<noteq> Some Kind_WhiteSpace"
      by (rule skipWhiteSpaceBackward_stops)
    with assms(4) \<open>j < ?r\<close> \<open>?r \<le> i\<close> show False by blast
  qed
  ultimately show ?thesis by simp
qed

lemma skipWhiteSpaceForward_nearest:
  assumes "i \<le> j"
    and "kindAt h cs j \<noteq> Some Kind_WhiteSpace"
    and "\<forall>k. i \<le> k \<and> k < j \<longrightarrow> kindAt h cs k = Some Kind_WhiteSpace"
    and "j < QList_count cs"
  shows "skipWhiteSpaceForward h cs i = j"
proof -
  let ?r = "skipWhiteSpaceForward h cs i"
  have "i \<le> ?r" by (rule skipWhiteSpaceForward_ge)
  have "\<not> j < ?r"
    using skipWhiteSpaceForward_skipped [of i j h cs] assms by auto
  moreover have "\<not> ?r < j"
  proof
    assume "?r < j"
    with assms(4) have "?r < QList_count cs" by simp
    then have "kindAt h cs ?r \<noteq> Some Kind_WhiteSpace"
      by (rule skipWhiteSpaceForward_stops)
    with assms(3) \<open>?r < j\<close> \<open>i \<le> ?r\<close> show False by blast
  qed
  ultimately show ?thesis by simp
qed

subsection \<open>The style scan returns\<close>

lemma insideStyleChange_loop_returns:
  "i < QList_count cs \<Longrightarrow> \<exists>b. insideStyleChange_loop h cs i m = Some b"
proof (induction h cs i m rule: insideStyleChange_loop.induct)
  case (1 h cs i m)
  show ?case
  proof (cases "i \<ge> 0")
    case False
    then show ?thesis by (subst insideStyleChange_loop.simps) auto
  next
    case True
    with "1.prems" obtain n where n: "QList_at cs i = Some n"
      by (auto simp add: QList_at_def)
    show ?thesis
    proof (cases "kindOf h n = Kind_StyleChange")
      case False
      with True n "1.IH"(2) [of n] "1.prems" show ?thesis
        by (subst insideStyleChange_loop.simps) simp
    next
      case style: True
      define m' where
        "m' = (if \<not> enable (obj (h n)) then m OR Style_int (style (obj (h n))) else m)"
      define found where
        "found \<longleftrightarrow> enable (obj (h n)) \<and> (m' AND Style_int (style (obj (h n)))) = 0 \<and>
           (style (obj (h n)) = Center \<or> style (obj (h n)) = Div \<or>
            style (obj (h n)) = Preformatted)"
      have unfold: "insideStyleChange_loop h cs i m =
          (if found then Some True else insideStyleChange_loop h cs (i - 1) m')"
        using True n style
        by (subst insideStyleChange_loop.simps) (simp add: Let_def m'_def found_def)
      show ?thesis
      proof (cases found)
        case True
        with unfold show ?thesis by auto
      next
        case False
        then have "\<exists>b. insideStyleChange_loop h cs (i - 1) m' = Some b"
          using "1.IH"(1) [OF \<open>i \<ge> 0\<close> n style refl refl refl] "1.prems"
          by (simp add: m'_def found_def)
        with unfold False show ?thesis by simp
      qed
    qed
  qed
qed


subsection \<open>Where the whitespace loops stop\<close>

lemma skipWhiteSpaceForward_outside_iff:
  "(skipWhiteSpaceForward h cs 0 < QList_count cs \<and>
    mustBeOutsideParagraph (obj (h (cs ! nat (skipWhiteSpaceForward h cs 0))))) \<longleftrightarrow>
   firstNonWhiteSpaceOutside h cs"
proof
  let ?r = "skipWhiteSpaceForward h cs 0"
  assume stop: "?r < QList_count cs \<and> mustBeOutsideParagraph (obj (h (cs ! nat ?r)))"
  have "0 \<le> ?r" by (rule skipWhiteSpaceForward_ge)
  have "\<forall>k<nat ?r. kindOf h (cs ! k) = Kind_WhiteSpace"
  proof (intro allI impI)
    fix k :: nat
    assume "k < nat ?r"
    then have "kindAt h cs (int k) = Some Kind_WhiteSpace"
      by (intro skipWhiteSpaceForward_skipped [of 0]) auto
    moreover from \<open>k < nat ?r\<close> have "int k < ?r" by simp
    with stop have "int k < QList_count cs" by linarith
    ultimately show "kindOf h (cs ! k) = Kind_WhiteSpace"
      by (simp add: kindAt_in_range)
  qed
  moreover from stop \<open>0 \<le> ?r\<close> have "nat ?r < length cs"
    by (simp add: QList_count_def nat_less_iff)
  ultimately show "firstNonWhiteSpaceOutside h cs"
    using stop unfolding firstNonWhiteSpaceOutside_def by blast
next
  assume "firstNonWhiteSpaceOutside h cs"
  then obtain j where j: "j < length cs"
    and ws: "\<forall>k<j. kindOf h (cs ! k) = Kind_WhiteSpace"
    and out: "mustBeOutsideParagraph (obj (h (cs ! j)))"
    unfolding firstNonWhiteSpaceOutside_def by blast
  from j have range: "int j < QList_count cs" by (simp add: QList_count_def)
  have "kindAt h cs (int j) \<noteq> Some Kind_WhiteSpace"
    using mustBeOutsideParagraph_not_whitespace [OF out] range
    by (simp add: kindAt_in_range kindOf_def)
  moreover have "\<forall>k. 0 \<le> k \<and> k < int j \<longrightarrow> kindAt h cs k = Some Kind_WhiteSpace"
  proof (intro allI impI)
    fix k :: int
    assume k: "0 \<le> k \<and> k < int j"
    then have "nat k < j" by linarith
    with ws have "kindOf h (cs ! nat k) = Kind_WhiteSpace" by blast
    with k range show "kindAt h cs k = Some Kind_WhiteSpace"
      by (simp add: kindAt_in_range)
  qed
  ultimately have "skipWhiteSpaceForward h cs 0 = int j"
    using range by (intro skipWhiteSpaceForward_nearest) auto
  with range out
  show "skipWhiteSpaceForward h cs 0 < QList_count cs \<and>
    mustBeOutsideParagraph (obj (h (cs ! nat (skipWhiteSpaceForward h cs 0))))"
    by simp
qed

lemma skipWhiteSpaceBackward_outside_iff:
  "(skipWhiteSpaceBackward h cs (QList_count cs - 1) \<ge> 0 \<and>
    mustBeOutsideParagraph
      (obj (h (cs ! nat (skipWhiteSpaceBackward h cs (QList_count cs - 1)))))) \<longleftrightarrow>
   lastNonWhiteSpaceOutside h cs"
proof
  let ?r = "skipWhiteSpaceBackward h cs (QList_count cs - 1)"
  assume stop: "?r \<ge> 0 \<and> mustBeOutsideParagraph (obj (h (cs ! nat ?r)))"
  have le: "?r \<le> QList_count cs - 1" by (rule skipWhiteSpaceBackward_le)
  have "\<forall>k. nat ?r < k \<and> k < length cs \<longrightarrow> kindOf h (cs ! k) = Kind_WhiteSpace"
  proof (intro allI impI)
    fix k :: nat
    assume k: "nat ?r < k \<and> k < length cs"
    then have "kindAt h cs (int k) = Some Kind_WhiteSpace"
      by (intro skipWhiteSpaceBackward_skipped [of h cs "QList_count cs - 1"])
        (auto simp add: QList_count_def)
    with k show "kindOf h (cs ! k) = Kind_WhiteSpace"
      by (simp add: kindAt_in_range QList_count_def)
  qed
  moreover from stop le have "nat ?r < length cs"
    by (simp add: QList_count_def nat_less_iff)
  ultimately show "lastNonWhiteSpaceOutside h cs"
    using stop unfolding lastNonWhiteSpaceOutside_def by blast
next
  assume "lastNonWhiteSpaceOutside h cs"
  then obtain j where j: "j < length cs"
    and ws: "\<forall>k. j < k \<and> k < length cs \<longrightarrow> kindOf h (cs ! k) = Kind_WhiteSpace"
    and out: "mustBeOutsideParagraph (obj (h (cs ! j)))"
    unfolding lastNonWhiteSpaceOutside_def by blast
  from j have range: "int j < QList_count cs" by (simp add: QList_count_def)
  have "kindAt h cs (int j) \<noteq> Some Kind_WhiteSpace"
    using mustBeOutsideParagraph_not_whitespace [OF out] range
    by (simp add: kindAt_in_range kindOf_def)
  moreover have "\<forall>k. int j < k \<and> k \<le> QList_count cs - 1 \<longrightarrow>
      kindAt h cs k = Some Kind_WhiteSpace"
  proof (intro allI impI)
    fix k :: int
    assume k: "int j < k \<and> k \<le> QList_count cs - 1"
    then have "j < nat k \<and> nat k < length cs" by (auto simp add: QList_count_def)
    with ws have "kindOf h (cs ! nat k) = Kind_WhiteSpace" by blast
    with k show "kindAt h cs k = Some Kind_WhiteSpace"
      by (simp add: kindAt_in_range)
  qed
  ultimately have "skipWhiteSpaceBackward h cs (QList_count cs - 1) = int j"
    using range by (intro skipWhiteSpaceBackward_nearest) auto
  with out
  show "skipWhiteSpaceBackward h cs (QList_count cs - 1) \<ge> 0 \<and>
    mustBeOutsideParagraph
      (obj (h (cs ! nat (skipWhiteSpaceBackward h cs (QList_count cs - 1)))))"
    by simp
qed

subsection \<open>Entering and leaving a paragraph, in closed form\<close>

lemma visitPre_DocPara_eq:
  assumes ctx: "getParagraphContext h p = Some (t, isFirst, isLast)"
    and t: "0 \<le> t" "t < 7"
  shows "visitPre_DocPara h p v =
     Some (if m_hide v \<or> \<not> paraNeedsTag h p \<or>
              firstNonWhiteSpaceOutside h (m_children (h p)) \<or> (isFirst \<and> isLast)
           then v else emit [Txt ''<p'', Txt (contexts ! nat t), Txt ''>''] v)"
proof -
  let ?cs = "m_children (h p)"
  let ?r = "skipWhiteSpaceForward h ?cs 0"
  have "0 \<le> ?r" by (rule skipWhiteSpaceForward_ge)
  then have outside: "(if ?r < QList_count ?cs
       then map_option mustBeOutsideParagraph (objAt h ?cs ?r) else Some False) =
     Some (firstNonWhiteSpaceOutside h ?cs)"
    using skipWhiteSpaceForward_outside_iff [of h ?cs]
    by (auto simp add: objAt_in_range)
  from t have c: "QList_at contexts t = Some (contexts ! nat t)"
    by (simp add: QList_at_def QList_count_def contexts_def)
  show ?thesis
    unfolding visitPre_DocPara_def Let_def outside
    by (simp add: ctx c)
qed

lemma visitPost_DocPara_eq:
  assumes ctx: "getParagraphContext h p = Some (t, isFirst, isLast)"
  shows "visitPost_DocPara h p v =
     Some (if \<not> paraNeedsTag h p \<or>
              lastNonWhiteSpaceOutside h (m_children (h p)) \<or> (isFirst \<and> isLast)
           then v else emit [Txt (''</p>'' @ endl)] v)"
proof -
  let ?cs = "m_children (h p)"
  let ?r = "skipWhiteSpaceBackward h ?cs (QList_count ?cs - 1)"
  have "?r \<le> QList_count ?cs - 1" by (rule skipWhiteSpaceBackward_le)
  then have outside: "(if ?r \<ge> 0
       then map_option mustBeOutsideParagraph (objAt h ?cs ?r) else Some False) =
     Some (lastNonWhiteSpaceOutside h ?cs)"
    using skipWhiteSpaceBackward_outside_iff [of h ?cs]
    by (auto simp add: objAt_in_range)
  show ?thesis
    unfolding visitPost_DocPara_def Let_def outside
    by (simp add: ctx)
qed

lemma getParagraphContext_range:
  "getParagraphContext h p = Some (t, isFirst, isLast) \<Longrightarrow> 0 \<le> t \<and> t < 7"
  by (auto simp add: getParagraphContext_def firstLastContext_def parBlockContext_def
      Let_def split: option.splits Kind.splits if_splits bind_splits)


subsection \<open>Closing and reopening, when the context is first and last\<close>

lemma QList_indexOf_less_count: "QList_indexOf cs n < QList_count cs"
  using QList_indexOf_bounds [of cs n] by (simp add: QList_count_def)

lemma outside_defined:
  "r < QList_count cs \<Longrightarrow>
   \<exists>b. (if r \<ge> 0 then map_option mustBeOutsideParagraph (objAt h cs r) else Some False) =
     Some b"
  by (auto simp add: objAt_in_range)

lemma forceEndParagraph_suppressed:
  assumes parent: "m_parent (h n) = Some para"
    and ctx: "getParagraphContext h para = Some (t, True, True)"
  shows "forceEndParagraph h n v = Some v"
proof (cases "kindOf h para = Kind_Para")
  case False
  with parent show ?thesis by (simp add: forceEndParagraph_def)
next
  case True
  let ?cs = "m_children (h para)"
  let ?i = "QList_indexOf ?cs n - 1"
  let ?r = "skipWhiteSpaceBackward h ?cs ?i"
  have r: "?r \<le> ?i" by (rule skipWhiteSpaceBackward_le)
  have i: "?i < QList_count ?cs" using QList_indexOf_less_count [of ?cs n] by simp
  from r i have "?r < QList_count ?cs" by simp
  from outside_defined [OF this, of h]
  obtain b where outside: "(if ?r \<ge> 0
       then map_option mustBeOutsideParagraph (objAt h ?cs ?r) else Some False) = Some b"
    by blast
  obtain s where style: "insideStyleChange_OutsidePara h para (?r - 1) = Some s"
    using insideStyleChange_loop_returns [of "?r - 1" ?cs h 0] r i
    by (auto simp add: insideStyleChange_OutsidePara_def)
  show ?thesis
    unfolding forceEndParagraph_def Let_def
    using parent True by (simp add: outside style ctx)
qed

lemma forceStartParagraph_suppressed:
  assumes parent: "m_parent (h n) = Some para"
    and ctx: "getParagraphContext h para = Some (t, True, True)"
  shows "forceStartParagraph h n v = Some v"
proof (cases "kindOf h para = Kind_Para")
  case False
  with parent show ?thesis by (simp add: forceStartParagraph_def)
next
  case True
  let ?cs = "m_children (h para)"
  let ?i = "QList_indexOf ?cs n"
  let ?r = "skipWhiteSpaceForward h ?cs (?i + 1)"
  have r: "?i + 1 \<le> ?r" by (rule skipWhiteSpaceForward_ge)
  have i: "- 1 \<le> ?i" using QList_indexOf_bounds [of ?cs n] by simp
  obtain s where style: "insideStyleChange_OutsidePara h para ?i = Some s"
    using insideStyleChange_loop_returns [of ?i ?cs h 0] QList_indexOf_less_count [of ?cs n]
    by (auto simp add: insideStyleChange_OutsidePara_def)
  have next': "?r < QList_count ?cs \<Longrightarrow> objAt h ?cs ?r = Some (obj (h (?cs ! nat ?r)))"
    using r i by (simp add: objAt_in_range)
  show ?thesis
    unfolding forceStartParagraph_def Let_def
    using parent True next' by (simp add: style ctx)
qed


subsection \<open>Closing a paragraph before a block\<close>








subsection \<open>What a parameter row writes\<close>

lemma emit_emit: "emit b (emit a v) = emit (a @ b) v"
  by (simp add: emit_def)

lemma emit_Nil: "emit [] v = v"
  by (simp add: emit_def)

lemma m_hide_emit: "m_hide (emit a v) = m_hide v"
  by (simp add: emit_def)

lemma visitParamWords_out:
  "\<exists>out. (\<forall>a. visitParamWords h sep ps first (emit a v) = emit (a @ out) v) \<and>
     (\<forall>x\<in>set out. x = Txt sep \<or> (\<forall>s. x \<noteq> Txt s))"
proof (induction ps arbitrary: first)
  case Nil
  have "\<forall>a. visitParamWords h sep [] first (emit a v) = emit (a @ []) v" by simp
  then show ?case by fastforce
next
  case (Cons p ps)
  define o1 where "o1 = (if first then [] else [Txt sep])"
  define o2 where "o2 =
    (if m_hide v then []
     else if kindOf h p = Kind_Word then [Filter (word (obj (h p)))]
     else if kindOf h p = Kind_LinkedWord then
       [StartLink (ref (obj (h p))) (m_file (obj (h p))) (relPath (obj (h p)))
          (anchor (obj (h p))) (tooltip (obj (h p))),
        Filter (word (obj (h p))), EndLink]
     else [])"
  from Cons.IH [of False] obtain o3
    where o3: "\<And>a. visitParamWords h sep ps False (emit a v) = emit (a @ o3) v"
      and o3_set: "\<forall>x\<in>set o3. x = Txt sep \<or> (\<forall>s. x \<noteq> Txt s)"
    by blast
  have step: "visitParamWords h sep (p # ps) first (emit a v) =
      visitParamWords h sep ps False (emit (a @ o1 @ o2) v)" for a
    by (simp add: Let_def o1_def o2_def visit_DocWord_def visit_DocLinkedWord_def
        emit_emit m_hide_emit)
  have "\<forall>a. visitParamWords h sep (p # ps) first (emit a v) = emit (a @ o1 @ o2 @ o3) v"
    by (simp only: step o3 append_assoc) simp
  moreover from o3_set have "\<forall>x\<in>set (o1 @ o2 @ o3). x = Txt sep \<or> (\<forall>s. x \<noteq> Txt s)"
    by (auto simp add: o1_def o2_def)
  ultimately show ?case by blast
qed

subsection \<open>The accept bodies and the classification of the classes\<close>

lemma acceptBody_cases:
  "acceptBody n =
     (if isLeafClass (obj n) then CallsVisit
      else if isCompositeClass (obj n) then
        (if kind (obj n) = Kind_ParamList then PreCopiesPost (childList n)
         else PreChildrenPost (childList n))
      else CallsNothing)"
  by (cases "obj n")
    (simp_all add: acceptBody_def isLeafClass_def isCompositeClass_def childList_def
      CompAccept_accept_def outOfLineAccept_def DocParamList_accept_def)

text \<open>
  Every class but the parameter list keeps the protocol: a leaf calls \<open>visit\<close> once
  with its own address, and a composite node calls \<open>visitPre\<close>, \<open>accept\<close> of its
  children through their pointers in the order of the list, and \<open>visitPost\<close>.
\<close>

lemma accept_leaf:
  assumes "p \<notin> deleted" and "isLeafClass (obj (h p))"
  shows "accept (Suc k) tmp h v p (s, deleted) = Some (visit v h p s, deleted)"
  using assms by (simp add: acceptBody_cases)

lemma accept_pointer_list:
  assumes "p \<notin> deleted" and "isCompositeClass (obj (h p))"
    and "kind (obj (h p)) \<noteq> Kind_ParamList"
  shows "accept (Suc k) tmp h v p (s, deleted) =
    map_option (\<lambda>(s', deleted'). (visitPost v h p s', deleted'))
      (acceptChildren k tmp h v (childList (h p)) (visitPre v h p s, deleted))"
  using assms
  by (simp add: acceptBody_cases isCompositeClass_def split: option.splits)

lemma acceptChildren_in_order:
  "acceptChildren k tmp h v (c # cs) st =
     Option.bind (accept k tmp h v c st) (acceptChildren k tmp h v cs)"
  by (simp split: option.splits)

section \<open>Theorems\<close>

subsection \<open>The must-be-outside-paragraph table\<close>

text \<open>
  C1 (as stated, refuted): the specification's table puts the diagram file references
  (dot, msc and dia files) among the kinds that always qualify, but the switch of
  \<open>mustBeOutsideParagraph\<close> has no case for them: a dot file reference is classified
  as not outside.
\<close>

theorem C1_dotfile_counterexample:
  "mustBeOutsideParagraph_spec DocDotFile \<and> \<not> mustBeOutsideParagraph DocDotFile"
  by (simp add: mustBeOutsideParagraph_spec_def alwaysOutsideKinds_spec_def
      mustBeOutsideParagraph_def)

text \<open>
  C1 (amended): for every node, \<open>mustBeOutsideParagraph\<close> is true exactly for the kinds of
  the table without the diagram file references (HTML, simple and auto lists, simple and
  parameter sections, HTML description lists, cross-reference items, HTML tables,
  sections, HTML headers, internal blocks, includes, images, section-reference lists,
  horizontal rules, copy nodes, block quotes and par-blocks), for a verbatim node unless
  it is an HTML-only fragment that is not a block, for a style change whose style is
  Preformatted, Div or Center, and for a formula that is not inline; it is false for every
  other node, the diagram file references included.
\<close>

theorem C1_mustBeOutsideParagraph_table:
  "mustBeOutsideParagraph n = (kind n \<in> alwaysOutsideKinds \<or> conditionallyOutside_spec n)"
  by (cases n)
    (simp_all add: mustBeOutsideParagraph_def alwaysOutsideKinds_def
      alwaysOutsideKinds_spec_def conditionallyOutside_spec_def)

theorem C1_mustBeOutsideParagraph_table_witness:
  "mustBeOutsideParagraph DocHorRuler \<and> \<not> mustBeOutsideParagraph (DocWord ''a'') \<and>
   \<not> mustBeOutsideParagraph (DocVerbatim HtmlOnly False) \<and>
   mustBeOutsideParagraph (DocStyleChange Center False) \<and>
   \<not> mustBeOutsideParagraph DocMscFile"
  using C1_mustBeOutsideParagraph_table [of DocHorRuler]
    C1_mustBeOutsideParagraph_table [of "DocWord ''a''"]
    C1_mustBeOutsideParagraph_table [of "DocVerbatim HtmlOnly False"]
    C1_mustBeOutsideParagraph_table [of "DocStyleChange Center False"]
    C1_mustBeOutsideParagraph_table [of DocMscFile]
  by (simp add: alwaysOutsideKinds_def alwaysOutsideKinds_spec_def
      conditionallyOutside_spec_def)

subsection \<open>Closing a paragraph before a run of blocks\<close>




subsection \<open>Enclosing styles that are still open\<close>

text \<open>
  In \<^verbatim>\<open><center><em>a</em>b<hr/>c\<close> the center style is enabled at position 0 of
  the paragraph and never disabled: it is open at position 3, where the scan of
  \<open>forceEndParagraph\<close> for the rule starts, and at position 5, the position of the rule,
  where the scan of \<open>forceStartParagraph\<close> starts.
\<close>

lemma docCenter_center_is_open:
  "openStyleAt docCenter (m_children (docCenter 1)) 3 \<and>
   openStyleAt docCenter (m_children (docCenter 1)) 5"
  by code_simp

text \<open>
  C3 (the code fails the claim): for the rule in the document above, the scan of
  \<open>insideStyleChange_OutsidePara\<close> answers false although the center style is open.
  The italic style closed at position 3 has the enumerator 1, which stays in the mask,
  and \<open>1 & 3\<close> is not zero for the enumerator 3 of the center style. So
  \<open>forceEndParagraph\<close> writes a close marker before the rule and
  \<open>forceStartParagraph\<close> writes an open marker after it, inside the open center.
\<close>

theorem C3_open_center_is_masked:
  "kindOf docCenter 1 = Kind_Para \<and> m_parent (docCenter 7) = Some 1 \<and>
   QList_indexOf (m_children (docCenter 1)) 7 = 5 \<and>
   obj (docCenter 2) = DocStyleChange Center True \<and>
   insideStyleChange_OutsidePara docCenter 1 3 = Some False \<and>
   insideStyleChange_OutsidePara docCenter 1 5 = Some False \<and>
   forceEndParagraph docCenter 7 visitor0 = Some (emit [Txt ''</p>''] visitor0) \<and>
   forceStartParagraph docCenter 7 visitor0 = Some (emit [Txt ''<p>''] visitor0)"
proof -
  have "kindOf docCenter 1 = Kind_Para \<and> m_parent (docCenter 7) = Some 1 \<and>
      QList_indexOf (m_children (docCenter 1)) 7 = 5 \<and>
      obj (docCenter 2) = DocStyleChange Center True"
    by (simp add: docCenter_def node_def kindOf_def)
  moreover have "insideStyleChange_OutsidePara docCenter 1 3 = Some False \<and>
      insideStyleChange_OutsidePara docCenter 1 5 = Some False"
    by (simp add: docCenter_def node_def kindOf_def QList_at_def QList_count_def
        insideStyleChange_OutsidePara_def insideStyleChange_loop.simps)
  moreover have "forceEndParagraph docCenter 7 visitor0 =
      Some (emit [Txt ''</p>''] visitor0)"
    by (simp add: forceEndParagraph_def docCenter_def node_def kindOf_def kindAt_def
        objAt_def QList_at_def QList_count_def skipWhiteSpaceBackward.simps
        insideStyleChange_OutsidePara_def insideStyleChange_loop.simps
        getParagraphContext_def mustBeOutsideParagraph_def)
  moreover have "forceStartParagraph docCenter 7 visitor0 =
      Some (emit [Txt ''<p>''] visitor0)"
    by (simp add: forceStartParagraph_def docCenter_def node_def kindOf_def kindAt_def
        objAt_def QList_at_def QList_count_def skipWhiteSpaceForward.simps
        insideStyleChange_OutsidePara_def insideStyleChange_loop.simps
        getParagraphContext_def mustBeOutsideParagraph_def)
  ultimately show ?thesis by blast
qed

subsection \<open>Paragraphs that are first and last in their context\<close>

text \<open>
  C4: when \<open>getParagraphContext\<close> reports a paragraph as both the first and the last
  child of its structural ancestor, no paragraph marker is written: \<open>visitPre\<close> and
  \<open>visitPost\<close> of the paragraph leave the stream as it is, and so do
  \<open>forceEndParagraph\<close> and \<open>forceStartParagraph\<close> for every child of the paragraph.
\<close>

theorem C4_first_and_last_suppresses_markers:
  assumes "getParagraphContext h p = Some (t, True, True)"
  shows "visitPre_DocPara h p v = Some v \<and> visitPost_DocPara h p v = Some v \<and>
    (\<forall>n. m_parent (h n) = Some p \<longrightarrow>
       forceEndParagraph h n v = Some v \<and> forceStartParagraph h n v = Some v)"
proof -
  from assms have "0 \<le> t \<and> t < 7" by (rule getParagraphContext_range)
  with assms have "visitPre_DocPara h p v = Some v"
    by (simp add: visitPre_DocPara_eq)
  moreover from assms have "visitPost_DocPara h p v = Some v"
    by (simp add: visitPost_DocPara_eq)
  ultimately show ?thesis
    using assms forceEndParagraph_suppressed forceStartParagraph_suppressed by blast
qed

theorem C4_first_and_last_suppresses_markers_witness:
  "getParagraphContext docListItem 4 = Some (1, True, True) \<and>
   m_parent (docListItem 6) = Some 4 \<and>
   visitPre_DocPara docListItem 4 visitor0 = Some visitor0 \<and>
   visitPost_DocPara docListItem 4 visitor0 = Some visitor0 \<and>
   forceEndParagraph docListItem 6 visitor0 = Some visitor0 \<and>
   forceStartParagraph docListItem 6 visitor0 = Some visitor0"
proof -
  have ctx: "getParagraphContext docListItem 4 = Some (1, True, True)"
    by (simp add: getParagraphContext_def docListItem_def node_def kindOf_def)
  have parent: "m_parent (docListItem 6) = Some 4"
    by (simp add: docListItem_def node_def)
  from C4_first_and_last_suppresses_markers [OF ctx, of visitor0] ctx parent
  show ?thesis by blast
qed

subsection \<open>Visitor dispatch\<close>

text \<open>
  C5 (the code fails the claim): a parameter list is a composite node, and in the example
  document the parameter list 3 owns the paragraph 4, which holds the word 8. The
  protocol of the claim enters and leaves the paragraph 4. \<open>accept\<close> of the root does
  not: the visitor is handed the address of the loop variable of
  \<open>DocParamList::accept\<close> (102 at that depth) in place of the paragraph, and the word 8
  has been deleted when the traversal returns, so that a second traversal calls through
  a deleted pointer.
\<close>

theorem C5_param_list_accepts_copies:
  "isCompositeClass (obj (docParams True True 3)) \<and>
   childList (docParams True True 3) = [4] \<and>
   calls 6 (docParams True True) 0 =
     [VisitPre 0, VisitPre 1, VisitPre 2, VisitPre 3, VisitPre 4, Visit 8,
      VisitPost 4, VisitPost 3, VisitPost 2, VisitPre 9, VisitPost 9,
      VisitPost 1, VisitPost 0] \<and>
   accept 6 loopVariable (docParams True True) recorder 0 ([], {}) =
     Some ([VisitPre 0, VisitPre 1, VisitPre 2, VisitPre 3, VisitPre 102, Visit 8,
            VisitPost 102, VisitPost 3, VisitPost 2, VisitPre 9, VisitPost 9,
            VisitPost 1, VisitPost 0], {8}) \<and>
   accept 6 loopVariable (docParams True True) recorder 0 ([], {8}) = None"
proof -
  have "isCompositeClass (obj (docParams True True 3)) \<and>
      childList (docParams True True 3) = [4]"
    by (simp add: docParams_def node_def isCompositeClass_def isLeafClass_def
        childList_def)
  moreover have "calls 6 (docParams True True) 0 =
     [VisitPre 0, VisitPre 1, VisitPre 2, VisitPre 3, VisitPre 4, Visit 8,
      VisitPost 4, VisitPost 3, VisitPost 2, VisitPre 9, VisitPost 9,
      VisitPost 1, VisitPost 0]"
    by code_simp
  moreover have "accept 6 loopVariable (docParams True True) recorder 0 ([], {}) =
     Some ([VisitPre 0, VisitPre 1, VisitPre 2, VisitPre 3, VisitPre 102, Visit 8,
            VisitPost 102, VisitPost 3, VisitPost 2, VisitPre 9, VisitPost 9,
            VisitPost 1, VisitPost 0], {8})"
    by (simp add: numeral_eq_Suc acceptBody_def CompAccept_accept_def
        DocParamList_accept_def docParams_def node_def noNodes_def recorder_def
        loopVariable_def)
  moreover have "accept 6 loopVariable (docParams True True) recorder 0 ([], {8}) = None"
    by (simp add: numeral_eq_Suc acceptBody_def CompAccept_accept_def
        DocParamList_accept_def docParams_def node_def noNodes_def recorder_def
        loopVariable_def)
  ultimately show ?thesis by blast
qed

subsection \<open>The columns of a parameter section\<close>

text \<open>
  C6: a row of a parameter section that is rendered (the visitor is not hiding output)
  gets a direction cell exactly when the section's \<open>hasInOutSpecifier\<close> flag is set, and
  a type cell exactly when its \<open>hasTypeSpecifier\<close> flag is set; the row's own direction
  does not matter, and a row whose direction is unspecified gets an empty direction cell.
\<close>

theorem C6_param_columns:
  assumes shown: "\<not> m_hide v"
    and parent: "m_parent (h pl) = Some s"
    and sect: "obj (h s) = DocParamSect io ty"
  shows "\<exists>out. visitPre_DocParamList h pl v = Some (emit out v) \<and>
    (Txt paramdirCell \<in> set out \<longleftrightarrow> io) \<and>
    (Txt paramtypeCell \<in> set out \<longleftrightarrow> ty) \<and>
    (io \<and> direction (obj (h pl)) = Unspecified \<longrightarrow>
       take 3 out = [Txt ''    <tr>'', Txt paramdirCell, Txt ''</td>''])"
proof -
  define d where "d = direction (obj (h pl))"
  define dirText where "dirText =
    (if d \<noteq> Unspecified then
       [Txt ''[''] @
       (if d = In then [Txt ''in''] else if d = Out then [Txt ''out'']
        else if d = InOut then [Txt ''in,out''] else []) @ [Txt '']'']
     else [])"
  define dirCell where
    "dirCell = (if io then [Txt paramdirCell] @ dirText @ [Txt ''</td>''] else [])"
  obtain tys where tys:
    "\<And>a. visitParamWords h ''&#160;|&#160;'' (paramTypes (obj (h pl))) True (emit a v) =
       emit (a @ tys) v"
    and tys_set: "\<forall>x\<in>set tys. x = Txt ''&#160;|&#160;'' \<or> (\<forall>s. x \<noteq> Txt s)"
    using visitParamWords_out by blast
  define typeCell where
    "typeCell = (if ty then [Txt paramtypeCell] @ tys @ [Txt ''</td>''] else [])"
  obtain names where names:
    "\<And>a. visitParamWords h '','' (parameters (obj (h pl))) True (emit a v) =
       emit (a @ names) v"
    and names_set: "\<forall>x\<in>set names. x = Txt '','' \<or> (\<forall>s. x \<noteq> Txt s)"
    using visitParamWords_out by blast
  define out where "out = [Txt ''    <tr>''] @ dirCell @ typeCell @
    [Txt ''<td class=\"paramname\">''] @ names @ [Txt ''</td><td>'']"
  have kind: "kindOf h s = Kind_ParamSect" using sect by (simp add: kindOf_def)
  have run: "visitPre_DocParamList h pl v = Some (emit out v)"
    using shown parent sect kind
    by (cases io; cases ty; cases d)
      (simp_all add: visitPre_DocParamList_def Let_def emit_emit tys names out_def
        typeCell_def dirCell_def dirText_def d_def [symmetric])
  have "Txt paramdirCell \<notin> set dirText" "Txt paramtypeCell \<notin> set dirText"
    by (auto simp add: dirText_def paramdirCell_def paramtypeCell_def)
  moreover have "Txt paramdirCell \<notin> set tys" "Txt paramtypeCell \<notin> set tys"
    using tys_set by (auto simp add: paramdirCell_def paramtypeCell_def)
  moreover have "Txt paramdirCell \<notin> set names" "Txt paramtypeCell \<notin> set names"
    using names_set by (auto simp add: paramdirCell_def paramtypeCell_def)
  ultimately have cells: "(Txt paramdirCell \<in> set out \<longleftrightarrow> io) \<and>
      (Txt paramtypeCell \<in> set out \<longleftrightarrow> ty)"
    by (auto simp add: out_def dirCell_def typeCell_def paramdirCell_def paramtypeCell_def)
  have "io \<and> d = Unspecified \<longrightarrow>
      take 3 out = [Txt ''    <tr>'', Txt paramdirCell, Txt ''</td>'']"
    by (simp add: out_def dirCell_def dirText_def)
  with run cells show ?thesis unfolding d_def by blast
qed

theorem C6_param_columns_witness:
  "\<not> m_hide visitor0 \<and> m_parent (docParams True False 3) = Some 2 \<and>
   obj (docParams True False 2) = DocParamSect True False \<and>
   visitPre_DocParamList (docParams True False) 3 visitor0 =
     Some (emit [Txt ''    <tr>'', Txt paramdirCell, Txt ''</td>'',
                 Txt ''<td class=\"paramname\">'', Filter ''x'', Txt '','',
                 StartLink [] ''f'' [] ''a'' [], Filter ''y'', EndLink,
                 Txt ''</td><td>''] visitor0) \<and>
   (\<exists>out. visitPre_DocParamList (docParams True False) 3 visitor0 =
       Some (emit out visitor0) \<and>
       Txt paramdirCell \<in> set out \<and> Txt paramtypeCell \<notin> set out)"
proof -
  have shown: "\<not> m_hide visitor0" by (simp add: visitor0_def)
  have parent: "m_parent (docParams True False 3) = Some 2"
    by (simp add: docParams_def node_def)
  have sect: "obj (docParams True False 2) = DocParamSect True False"
    by (simp add: docParams_def node_def)
  have run: "visitPre_DocParamList (docParams True False) 3 visitor0 =
     Some (emit [Txt ''    <tr>'', Txt paramdirCell, Txt ''</td>'',
                 Txt ''<td class=\"paramname\">'', Filter ''x'', Txt '','',
                 StartLink [] ''f'' [] ''a'' [], Filter ''y'', EndLink,
                 Txt ''</td><td>''] visitor0)"
    by (simp add: visitPre_DocParamList_def docParams_def node_def kindOf_def Let_def
        visitor0_def emit_def visit_DocWord_def visit_DocLinkedWord_def)
  from C6_param_columns [OF shown parent sect] shown parent sect run
  show ?thesis by blast
qed

subsection \<open>Inline and display formulas\<close>

text \<open>
  C7 (as stated, refuted): a formula whose raw text is empty is classified inline,
  although the text is not wrapped in single dollars.
\<close>

theorem C7_empty_text_counterexample:
  "isInline (DocFormula []) \<and> \<not> wrappedInSingleDollar []"
  by (simp add: isInline_def wrappedInSingleDollar_def)

text \<open>
  C7 (amended): \<open>DocFormula::isInline\<close> looks at the first character of the raw text only:
  a formula is inline exactly when its text is empty or does not begin with a backslash.
  Hence every text wrapped in single dollars is inline, and every display formula begins
  with a backslash and is not wrapped in single dollars; on the texts that are wrapped in
  single dollars or begin with a backslash, inline and wrapped in single dollars agree.
\<close>

theorem C7_isInline_first_character:
  "(isInline (DocFormula t) \<longleftrightarrow> t = [] \<or> hd t \<noteq> backslash) \<and>
   (wrappedInSingleDollar t \<longrightarrow> isInline (DocFormula t)) \<and>
   (\<not> isInline (DocFormula t) \<longrightarrow> t \<noteq> [] \<and> hd t = backslash \<and> \<not> wrappedInSingleDollar t) \<and>
   (wrappedInSingleDollar t \<or> (t \<noteq> [] \<and> hd t = backslash) \<longrightarrow>
      (isInline (DocFormula t) \<longleftrightarrow> wrappedInSingleDollar t))"
proof (cases t)
  case Nil
  then show ?thesis by (simp add: isInline_def wrappedInSingleDollar_def)
next
  case (Cons c cs)
  have "dollar \<noteq> backslash" by (simp add: dollar_def backslash_def)
  with Cons show ?thesis
    by (auto simp add: isInline_def wrappedInSingleDollar_def)
qed

theorem C7_isInline_first_character_witness:
  "wrappedInSingleDollar ''$x$'' \<and> isInline (DocFormula ''$x$'') \<and>
   \<not> isInline (DocFormula [backslash, CHR ''['', CHR ''x''])"
  using C7_isInline_first_character [of "''$x$''"]
    C7_isInline_first_character [of "[backslash, CHR ''['', CHR ''x'']"]
  by (simp add: wrappedInSingleDollar_def dollar_def backslash_def)

subsection \<open>The type marker of an enumerated auto list\<close>

text \<open>
  C8: on entering an enumerated auto list of depth \<open>d \<ge> 0\<close>, the visitor writes the
  list type number \<open>d mod 4\<close> of \<open>1\<close>, \<open>a\<close>, \<open>i\<close>, \<open>A\<close>, after whatever
  \<open>forceEndParagraph\<close> writes; an unordered auto list gets the plain \<open><ul>\<close>.
\<close>

theorem C8_auto_list_marker:
  assumes shown: "\<not> m_hide v"
    and list: "obj (h l) = DocAutoList enum d"
    and depth: "enum \<longrightarrow> 0 \<le> d"
    and closed: "forceEndParagraph h l v = Some v'"
  shows "visitPre_DocAutoList h l v =
    Some (emit ((if enum
                 then [Txt ''<ol type=\"'', Txt ([''1'', ''a'', ''i'', ''A''] ! nat (d mod 4)),
                       Txt ''\">'']
                 else [Txt ''<ul>'']) @
                (if m_insidePre (h l) then [] else [Txt endl])) v')"
proof (cases enum)
  case False
  with shown list closed show ?thesis
    by (simp add: visitPre_DocAutoList_def emit_emit emit_Nil)
next
  case True
  with depth have d: "0 \<le> d" by simp
  then have "cpp_rem d NUM_HTML_LIST_TYPES = d mod 4"
    by (cases "d = 0") (simp_all add: cpp_rem_def NUM_HTML_LIST_TYPES_def)
  moreover have "0 \<le> d mod 4 \<and> d mod 4 < 4" by simp
  then have "QList_at types (d mod 4) = Some ([''1'', ''a'', ''i'', ''A''] ! nat (d mod 4))"
    by (simp add: QList_at_def QList_count_def types_def)
  ultimately show ?thesis
    using True shown list closed
    by (simp add: visitPre_DocAutoList_def emit_emit emit_Nil)
qed

theorem C8_auto_list_marker_witness:
  "\<not> m_hide visitor0 \<and> obj (docParams True True 9) = DocAutoList True 5 \<and>
   forceEndParagraph (docParams True True) 9 visitor0 = Some visitor0 \<and>
   visitPre_DocAutoList (docParams True True) 9 visitor0 =
     Some (emit [Txt ''<ol type=\"'', Txt ''a'', Txt ''\">'', Txt endl] visitor0)"
proof -
  have shown: "\<not> m_hide visitor0" by (simp add: visitor0_def)
  have list: "obj (docParams True True 9) = DocAutoList True 5"
    by (simp add: docParams_def node_def)
  have closed: "forceEndParagraph (docParams True True) 9 visitor0 = Some visitor0"
    by (simp add: forceEndParagraph_def docParams_def node_def kindOf_def kindAt_def
        objAt_def QList_at_def QList_count_def skipWhiteSpaceBackward.simps
        mustBeOutsideParagraph_def)
  have pre: "\<not> m_insidePre (docParams True True 9)"
    by (simp add: docParams_def node_def)
  from C8_auto_list_marker [OF shown list _ closed] shown list closed pre
  show ?thesis by simp
qed

subsection \<open>The single-line flag of the root\<close>

text \<open>
  C9: for a paragraph that is a direct child of the root, a set single-line flag
  suppresses the paragraph markers in \<open>visitPre\<close> and in \<open>visitPost\<close>. With the flag
  unset, \<open>visitPre\<close> writes the open marker unless the visitor is hiding output or the
  first child that is not whitespace must be outside a paragraph, and \<open>visitPost\<close>
  writes the close marker unless the last child that is not whitespace must be outside a
  paragraph.
\<close>

theorem C9_root_single_line:
  assumes "m_parent (h p) = Some r" and "obj (h r) = DocRoot ind sl"
  shows "(sl \<longrightarrow> visitPre_DocPara h p v = Some v \<and> visitPost_DocPara h p v = Some v) \<and>
    (\<not> sl \<longrightarrow>
       visitPre_DocPara h p v =
         Some (if m_hide v \<or> firstNonWhiteSpaceOutside h (m_children (h p)) then v
               else emit [Txt ''<p'', Txt [], Txt ''>''] v) \<and>
       visitPost_DocPara h p v =
         Some (if lastNonWhiteSpaceOutside h (m_children (h p)) then v
               else emit [Txt (''</p>'' @ endl)] v))"
proof -
  from assms have ctx: "getParagraphContext h p = Some (0, False, False)"
    by (simp add: getParagraphContext_def kindOf_def)
  from assms have tag: "paraNeedsTag h p = (\<not> sl)"
    by (simp add: paraNeedsTag_def kindOf_def)
  have "contexts ! nat 0 = []" by (simp add: contexts_def)
  with visitPre_DocPara_eq [OF ctx, of v] visitPost_DocPara_eq [OF ctx, of v] tag
  show ?thesis by auto
qed

theorem C9_root_single_line_witness:
  "visitPre_DocPara (docRules True) 1 visitor0 = Some visitor0 \<and>
   visitPost_DocPara (docRules True) 1 visitor0 = Some visitor0 \<and>
   visitPre_DocPara (docRules False) 1 visitor0 =
     Some (emit [Txt ''<p'', Txt [], Txt ''>''] visitor0) \<and>
   visitPost_DocPara (docRules False) 1 visitor0 = Some visitor0"
proof -
  have parent: "m_parent (docRules sl 1) = Some 0" for sl
    by (simp add: docRules_def node_def)
  have root: "obj (docRules sl 0) = DocRoot False sl" for sl
    by (simp add: docRules_def node_def)
  have first: "\<not> firstNonWhiteSpaceOutside (docRules False) (m_children (docRules False 1))"
    unfolding skipWhiteSpaceForward_outside_iff [symmetric]
    by (simp add: skipWhiteSpaceForward.simps docRules_def node_def kindAt_def kindOf_def
        QList_at_def QList_count_def mustBeOutsideParagraph_def)
  have last: "lastNonWhiteSpaceOutside (docRules False) (m_children (docRules False 1))"
    unfolding skipWhiteSpaceBackward_outside_iff [symmetric]
    by (simp add: skipWhiteSpaceBackward.simps docRules_def node_def kindAt_def kindOf_def
        QList_at_def QList_count_def mustBeOutsideParagraph_def)
  from C9_root_single_line [of "docRules True" 1 0 False True visitor0, OF parent root]
    C9_root_single_line [of "docRules False" 1 0 False False visitor0, OF parent root]
    first last
  show ?thesis by (simp add: visitor0_def)
qed

subsection \<open>Paragraphs of a simple section that are enclosed by separators\<close>

text \<open>
  C10: let a paragraph be the child at position \<open>i\<close> of a simple section. If it is the
  first child and the next child is a separator, or the last child and the previous
  child is a separator, or a child in between with a separator on both sides, then
  \<open>getParagraphContext\<close> reports it as first and last, and \<open>visitPre\<close> and
  \<open>visitPost\<close> write no paragraph marker for it.
\<close>

theorem C10_separated_paragraph:
  assumes parent: "m_parent (h p) = Some s"
    and sect: "kindOf h s = Kind_SimpleSect"
    and index: "QList_indexOf (m_children (h s)) p = int i"
    and sep:
      "(i = 0 \<and> 1 < length (m_children (h s)) \<and>
          kindOf h (m_children (h s) ! 1) = Kind_SimpleSectSep) \<or>
       (0 < i \<and> i = length (m_children (h s)) - 1 \<and>
          kindOf h (m_children (h s) ! (i - 1)) = Kind_SimpleSectSep) \<or>
       (0 < i \<and> i + 1 < length (m_children (h s)) \<and>
          kindOf h (m_children (h s) ! (i - 1)) = Kind_SimpleSectSep \<and>
          kindOf h (m_children (h s) ! (i + 1)) = Kind_SimpleSectSep)"
  shows "(\<exists>t. getParagraphContext h p = Some (t, True, True)) \<and>
    visitPre_DocPara h p v = Some v \<and> visitPost_DocPara h p v = Some v"
proof -
  let ?cs = "m_children (h s)"
  from QList_indexOf_nth [OF index] have i: "i < length ?cs" by simp
  then have nonempty: "?cs \<noteq> []" by auto
  have prev: "0 < i \<Longrightarrow> kindAt h ?cs (int i - 1) = Some (kindOf h (?cs ! (i - 1)))"
    using i by (simp add: kindAt_in_range QList_count_def nat_diff_distrib)
  have next': "i + 1 < length ?cs \<Longrightarrow>
      kindAt h ?cs (int i + 1) = Some (kindOf h (?cs ! (i + 1)))"
    by (simp add: kindAt_in_range QList_count_def nat_add_distrib)
  have separated: "isSeparatedParagraph h s p"
    using sep
  proof (elim disjE conjE)
    assume "i = 0" "1 < length ?cs" "kindOf h (?cs ! 1) = Kind_SimpleSectSep"
    with index next' show ?thesis
      by (simp add: isSeparatedParagraph_def Let_def QList_count_def)
  next
    assume "0 < i" "i = length ?cs - 1" "kindOf h (?cs ! (i - 1)) = Kind_SimpleSectSep"
    with index prev i nonempty show ?thesis
      by (auto simp add: isSeparatedParagraph_def Let_def QList_count_def of_nat_diff)
  next
    assume "0 < i" "i + 1 < length ?cs" "kindOf h (?cs ! (i - 1)) = Kind_SimpleSectSep"
      "kindOf h (?cs ! (i + 1)) = Kind_SimpleSectSep"
    with index prev next' show ?thesis
      by (simp add: isSeparatedParagraph_def Let_def QList_count_def)
  qed
  from nonempty obtain t f l where "firstLastContext h s p 2 4 = Some (t, f, l)"
    by (cases ?cs)
      (simp_all add: firstLastContext_def isFirstChildNode_def isLastChildNode_def
        QList_first_def QList_last_def)
  with parent sect separated have ctx: "getParagraphContext h p = Some (t, True, True)"
    by (simp add: getParagraphContext_def)
  from ctx have "0 \<le> t \<and> t < 7" by (rule getParagraphContext_range)
  with ctx have "visitPre_DocPara h p v = Some v"
    by (simp add: visitPre_DocPara_eq)
  moreover from ctx have "visitPost_DocPara h p v = Some v"
    by (simp add: visitPost_DocPara_eq)
  ultimately show ?thesis using ctx by blast
qed

theorem C10_separated_paragraph_witness:
  "m_parent (docSections 3) = Some 2 \<and> kindOf docSections 2 = Kind_SimpleSect \<and>
   QList_indexOf (m_children (docSections 2)) 3 = int 0 \<and>
   kindOf docSections (m_children (docSections 2) ! 1) = Kind_SimpleSectSep \<and>
   (\<exists>t. getParagraphContext docSections 3 = Some (t, True, True)) \<and>
   visitPre_DocPara docSections 3 visitor0 = Some visitor0 \<and>
   visitPost_DocPara docSections 3 visitor0 = Some visitor0"
proof -
  have parent: "m_parent (docSections 3) = Some 2"
    by (simp add: docSections_def node_def)
  have sect: "kindOf docSections 2 = Kind_SimpleSect"
    by (simp add: docSections_def node_def kindOf_def)
  have index: "QList_indexOf (m_children (docSections 2)) 3 = int 0"
    by (simp add: docSections_def node_def)
  have sep: "kindOf docSections (m_children (docSections 2) ! 1) = Kind_SimpleSectSep"
    by (simp add: docSections_def node_def kindOf_def)
  have len: "1 < length (m_children (docSections 2))"
    by (simp add: docSections_def node_def)
  from C10_separated_paragraph [OF parent sect index, of visitor0] sep len
    parent sect index
  show ?thesis by blast
qed


end
